theory Spec2Isabelle
  imports Main "HOL-Library.Word"
begin

unbundle bit_operations_syntax

section \<open>JavaScript strings and values\<close>

text \<open>
  A JavaScript string is a sequence of 16-bit code units. String literals of the source
  are written \<open>js ''...''\<close>. An environment binding or a query parameter that is absent
  is \<open>None\<close> (JavaScript's \<open>undefined\<close>); it is truthy when present and non-empty.
\<close>

type_synonym jsstring = "16 word list"

definition js :: "string \<Rightarrow> jsstring" where
  "js s = map (\<lambda>c. of_nat (of_char c)) s"

definition truthy_str :: "jsstring option \<Rightarrow> bool" where
  "truthy_str v = (case v of None \<Rightarrow> False | Some s \<Rightarrow> s \<noteq> [])"

text \<open>\<open>s.includes(t)\<close>: \<open>t\<close> occurs in \<open>s\<close> as a contiguous substring.\<close>

fun includes_js :: "jsstring \<Rightarrow> jsstring \<Rightarrow> bool" where
  "includes_js [] t = (t = [])"
| "includes_js (c # cs) t = (take (length t) (c # cs) = t \<or> includes_js cs t)"

text \<open>\<open>s.split(sep)\<close> for a one-character separator: always at least one piece.\<close>

fun split_js :: "16 word \<Rightarrow> jsstring \<Rightarrow> jsstring list" where
  "split_js sep [] = [[]]"
| "split_js sep (c # cs) =
     (if c = sep then [] # split_js sep cs
      else (case split_js sep cs of
              [] \<Rightarrow> [[c]]
            | p # ps \<Rightarrow> (c # p) # ps))"

text \<open>\<open>xs[i]\<close> on an array: \<open>undefined\<close> out of range.\<close>

fun index_js :: "'a list \<Rightarrow> nat \<Rightarrow> 'a option" where
  "index_js [] i = None"
| "index_js (x # xs) 0 = Some x"
| "index_js (x # xs) (Suc i) = index_js xs i"

section \<open>Environment, requests and responses\<close>

record env =
  GITHUB_CLIENT_ID :: "jsstring option"
  GOOGLE_CLIENT_ID :: "jsstring option"
  GOOGLE_CLIENT_SECRET :: "jsstring option"
  AUTH0_DOMAIN :: "jsstring option"
  AUTH0_CLIENT_ID :: "jsstring option"
  AUTH0_CLIENT_SECRET :: "jsstring option"
  AUTH0_AUDIENCE :: "jsstring option"
  KEYCLOAK_DOMAIN :: "jsstring option"
  KEYCLOAK_REALM :: "jsstring option"
  KEYCLOAK_CLIENT_ID :: "jsstring option"
  KEYCLOAK_CLIENT_SECRET :: "jsstring option"
  CUSTOM_OAUTH_URL :: "jsstring option"
  CUSTOM_OAUTH_CLIENT_ID :: "jsstring option"

definition no_env :: env where
  "no_env = \<lparr> GITHUB_CLIENT_ID = None, GOOGLE_CLIENT_ID = None, GOOGLE_CLIENT_SECRET = None,
     AUTH0_DOMAIN = None, AUTH0_CLIENT_ID = None, AUTH0_CLIENT_SECRET = None,
     AUTH0_AUDIENCE = None, KEYCLOAK_DOMAIN = None, KEYCLOAK_REALM = None,
     KEYCLOAK_CLIENT_ID = None, KEYCLOAK_CLIENT_SECRET = None, CUSTOM_OAUTH_URL = None,
     CUSTOM_OAUTH_CLIENT_ID = None \<rparr>"

text \<open>
  A request as the handlers read it: \<open>c.req.url\<close> (the raw URL string) and the decoded
  query parameters that \<open>c.req.query(name)\<close> looks up.
\<close>

record request =
  url :: jsstring
  query :: "(jsstring \<times> jsstring) list"

definition req_query :: "request \<Rightarrow> jsstring \<Rightarrow> jsstring option" where
  "req_query r name = map_of (query r) name"

text \<open>
  An upstream authorize URL is kept as its endpoint and its query parameters
  \<open>(name, value)\<close> in order, the values as the upstream reads them (before
  percent-encoding).
\<close>

record authorize_url =
  au_endpoint :: jsstring
  au_params :: "(jsstring \<times> jsstring) list"

text \<open>
  Responses: \<open>c.text(body, status)\<close>, a redirect with its \<open>Location\<close>, status and
  extra headers, the 302 to an upstream authorize URL with its extra headers, and the
  provider-selection page, kept as its list of anchors \<open>(href, name)\<close>.
\<close>

datatype response =
    TextResponse jsstring nat
  | RedirectResponse jsstring nat "(jsstring \<times> jsstring) list"
  | AuthorizeRedirect authorize_url "(jsstring \<times> jsstring) list"
  | SelectionPage "(jsstring \<times> jsstring) list"

section \<open>Provider router (index.ts and index\_sentry.ts)\<close>

datatype provider = GitHub | Google | Auth0 | Keycloak | CustomOAuth

datatype http_method = GET | POST

datatype handler =
    ProviderAuthorize provider
  | ProviderApproval provider
  | ProviderCallback provider
  | RootAuthorize
  | RootCallback

fun provider_path :: "provider \<Rightarrow> jsstring" where
  "provider_path GitHub = js ''/github''"
| "provider_path Google = js ''/google''"
| "provider_path Auth0 = js ''/auth0''"
| "provider_path Keycloak = js ''/keycloak''"
| "provider_path CustomOAuth = js ''/custom''"

text \<open>
  \<open>authRouter.route(prefix, Handler)\<close> mounts the three routes every provider handler
  declares: \<open>GET /authorize\<close>, \<open>POST /authorize\<close> and \<open>GET /callback\<close>.
\<close>

definition provider_routes :: "provider \<Rightarrow> (http_method \<times> jsstring \<times> handler) list" where
  "provider_routes p =
     [(GET, provider_path p @ js ''/authorize'', ProviderAuthorize p),
      (POST, provider_path p @ js ''/authorize'', ProviderApproval p),
      (GET, provider_path p @ js ''/callback'', ProviderCallback p)]"

definition mounted_providers :: "provider list" where
  "mounted_providers = [GitHub, Google, Auth0, Keycloak, CustomOAuth]"

text \<open>The route table of index\_sentry.ts: the generic callback handler is removed.\<close>

definition authRouter_sentry :: "(http_method \<times> jsstring \<times> handler) list" where
  "authRouter_sentry =
     concat (map provider_routes mounted_providers) @
     [(GET, js ''/authorize'', RootAuthorize)]"

text \<open>The route table of index.ts: it also registers \<open>GET /callback\<close>.\<close>

definition authRouter :: "(http_method \<times> jsstring \<times> handler) list" where
  "authRouter =
     concat (map provider_routes mounted_providers) @
     [(GET, js ''/authorize'', RootAuthorize),
      (GET, js ''/callback'', RootCallback)]"

text \<open>Dispatch: the first registered route whose method and path match.\<close>

fun dispatch :: "(http_method \<times> jsstring \<times> handler) list \<Rightarrow> http_method \<Rightarrow> jsstring
    \<Rightarrow> handler option" where
  "dispatch [] m p = None"
| "dispatch ((m', p', h) # rs) m p = (if m' = m \<and> p' = p then Some h else dispatch rs m p)"

text \<open>Provider detection of the root \<open>/authorize\<close> handler: \<open>(name, path)\<close> in push order.\<close>

definition detect_providers :: "env \<Rightarrow> (jsstring \<times> jsstring) list" where
  "detect_providers e =
     (if truthy_str (GITHUB_CLIENT_ID e) then [(js ''GitHub'', js ''/github'')] else []) @
     (if truthy_str (GOOGLE_CLIENT_ID e) then [(js ''Google'', js ''/google'')] else []) @
     (if truthy_str (AUTH0_DOMAIN e) \<and> truthy_str (AUTH0_CLIENT_ID e)
      then [(js ''Auth0'', js ''/auth0'')] else []) @
     (if truthy_str (KEYCLOAK_DOMAIN e) \<and> truthy_str (KEYCLOAK_CLIENT_ID e)
      then [(js ''Keycloak'', js ''/keycloak'')] else []) @
     (if truthy_str (CUSTOM_OAUTH_URL e) then [(js ''Custom OAuth'', js ''/custom'')] else [])"

text \<open>
  \<open>c.req.url.includes('?') ? c.req.url.split('?')[1] : ''\<close>; the result is \<open>None\<close> when
  the indexing yields \<open>undefined\<close>.
\<close>

definition queryString_of :: "jsstring \<Rightarrow> jsstring option" where
  "queryString_of u =
     (if includes_js u (js ''?'') then index_js (split_js (of_nat (of_char CHR ''?'')) u) 1
      else Some [])"

definition root_authorize :: "env \<Rightarrow> request \<Rightarrow> response" where
  "root_authorize e r =
     (let providers = detect_providers e in
      if length providers = 1 then
        (let queryString = queryString_of (url r);
             redirectUrl = snd (hd providers) @ js ''/authorize'' @
               (if truthy_str queryString then js ''?'' @ the queryString else [])
         in RedirectResponse redirectUrl 302 [])
      else if length providers > 1 then
        (let queryString = queryString_of (url r) in
         SelectionPage (map (\<lambda>(name, path).
           (path @ js ''/authorize?'' @ (case queryString of None \<Rightarrow> js ''undefined'' | Some q \<Rightarrow> q),
            name)) providers))
      else TextResponse
        (js ''No OAuth providers configured. Please check your environment variables.'') 500)"

text \<open>
  The parts of \<open>new URL(c.req.url)\<close> the root callback reads: \<open>origin\<close> (scheme and
  authority) and \<open>search\<close> (from the first \<open>?\<close>, empty when nothing follows it).
\<close>

definition url_origin :: "jsstring \<Rightarrow> jsstring" where
  "url_origin u =
     (let scheme = takeWhile (\<lambda>c. c \<noteq> of_nat (of_char CHR '':'')) u;
          rest = drop (length scheme + 3) u
      in scheme @ js ''://'' @
         takeWhile (\<lambda>c. c \<noteq> of_nat (of_char CHR ''/'') \<and> c \<noteq> of_nat (of_char CHR ''?'')) rest)"

definition url_search :: "jsstring \<Rightarrow> jsstring" where
  "url_search u =
     (let s = dropWhile (\<lambda>c. c \<noteq> of_nat (of_char CHR ''?'')) u
      in if s = js ''?'' then [] else s)"

text \<open>
  The root \<open>/callback\<close> handler of index.ts: it guesses the provider from the callback's
  query parameters and the environment, then redirects to that provider's callback.
\<close>

definition root_callback_provider :: "env \<Rightarrow> request \<Rightarrow> jsstring \<Rightarrow> jsstring" where
  "root_callback_provider e r code =
     (let scope = req_query r (js ''scope'');
          sessionState = req_query r (js ''session_state'');
          iss = req_query r (js ''iss'');
          authuser = req_query r (js ''authuser'');
          providerPath =
            (if truthy_str iss \<and> (includes_js (the iss) (js ''keycloak'')
                                  \<or> includes_js (the iss) (js ''localhost:8080''))
               then js ''/keycloak''
             else if truthy_str sessionState \<and> truthy_str iss then js ''/keycloak''
             else if truthy_str scope \<and> includes_js (the scope) (js ''googleapis.com'')
               then js ''/google''
             else if authuser \<noteq> None then js ''/google''
             else if truthy_str scope \<and> includes_js (the scope) (js ''openid'')
                     \<and> truthy_str (AUTH0_DOMAIN e) then js ''/auth0''
             else if truthy_str (AUTH0_DOMAIN e) \<and> truthy_str (AUTH0_CLIENT_ID e)
               then js ''/auth0''
             else if length code > 60 \<and> truthy_str (CUSTOM_OAUTH_URL e)
               then js ''/custom''
             else if truthy_str (GITHUB_CLIENT_ID e) then js ''/github''
             else [])
      in if providerPath = [] then
           (let configuredProviders =
              (if truthy_str (GITHUB_CLIENT_ID e) then [js ''/github''] else []) @
              (if truthy_str (GOOGLE_CLIENT_ID e) then [js ''/google''] else []) @
              (if truthy_str (AUTH0_DOMAIN e) \<and> truthy_str (AUTH0_CLIENT_ID e)
               then [js ''/auth0''] else []) @
              (if truthy_str (KEYCLOAK_DOMAIN e) \<and> truthy_str (KEYCLOAK_CLIENT_ID e)
               then [js ''/keycloak''] else []) @
              (if truthy_str (CUSTOM_OAUTH_URL e) then [js ''/custom''] else [])
            in if length configuredProviders = 1 then hd configuredProviders else providerPath)
         else providerPath)"

definition root_callback :: "env \<Rightarrow> request \<Rightarrow> response" where
  "root_callback e r =
     (if \<not> truthy_str (req_query r (js ''code''))
      then TextResponse (js ''Missing authorization code'') 400
      else
        (let providerPath = root_callback_provider e r (the (req_query r (js ''code''))) in
         if providerPath = [] then
           TextResponse (js ''Unable to determine OAuth provider from callback. Please check your configuration.'') 400
         else RedirectResponse
           (url_origin (url r) @ providerPath @ js ''/callback'' @ url_search (url r)) 302 []))"

section \<open>Platform primitives: errors, base64, UTF-8, SHA-256\<close>

text \<open>A thrown JavaScript error: its \<open>name\<close> and its \<open>message\<close>.\<close>

datatype js_error = JsError (err_name: jsstring) (err_message: jsstring)

definition InvalidCharacterError :: js_error where
  "InvalidCharacterError = JsError (js ''InvalidCharacterError'') (js ''Invalid character'')"

definition SyntaxError :: js_error where
  "SyntaxError = JsError (js ''SyntaxError'') (js ''Unexpected token in JSON'')"

definition TypeError :: js_error where
  "TypeError = JsError (js ''TypeError'') (js ''Cannot read properties of undefined'')"

subsection \<open>btoa and atob\<close>

definition b64_char :: "nat \<Rightarrow> 16 word" where
  "b64_char n = of_nat
     (if n < 26 then n + 65 else if n < 52 then n + 71 else if n < 62 then n - 4
      else if n = 62 then 43 else 47)"

definition b64_pad :: "16 word" where
  "b64_pad = 61"

fun b64_encode :: "nat list \<Rightarrow> jsstring" where
  "b64_encode [] = []"
| "b64_encode [a] = [b64_char (a div 4), b64_char ((a mod 4) * 16), b64_pad, b64_pad]"
| "b64_encode [a, b] =
     [b64_char (a div 4), b64_char ((a mod 4) * 16 + b div 16), b64_char ((b mod 16) * 4),
      b64_pad]"
| "b64_encode (a # b # c # rest) =
     b64_char (a div 4) # b64_char ((a mod 4) * 16 + b div 16) #
     b64_char ((b mod 16) * 4 + c div 64) # b64_char (c mod 64) # b64_encode rest"

text \<open>\<open>btoa\<close> throws on a code unit above U+00FF.\<close>

definition btoa :: "jsstring \<Rightarrow> js_error + jsstring" where
  "btoa s = (if list_all (\<lambda>c. unat c \<le> 255) s then Inr (b64_encode (map unat s))
             else Inl InvalidCharacterError)"

definition b64_index :: "16 word \<Rightarrow> nat option" where
  "b64_index c =
     (let n = unat c in
      if 65 \<le> n \<and> n \<le> 90 then Some (n - 65)
      else if 97 \<le> n \<and> n \<le> 122 then Some (n - 71)
      else if 48 \<le> n \<and> n \<le> 57 then Some (n + 4)
      else if n = 43 then Some 62
      else if n = 47 then Some 63
      else None)"

fun b64_decode :: "nat list \<Rightarrow> nat list" where
  "b64_decode (a # b # c # d # rest) =
     (a * 4 + b div 16) # ((b mod 16) * 16 + c div 4) # ((c mod 4) * 64 + d) # b64_decode rest"
| "b64_decode [a, b, c] = [a * 4 + b div 16, (b mod 16) * 16 + c div 4]"
| "b64_decode [a, b] = [a * 4 + b div 16]"
| "b64_decode [a] = []"
| "b64_decode [] = []"

definition is_ascii_whitespace :: "16 word \<Rightarrow> bool" where
  "is_ascii_whitespace c = (c = 9 \<or> c = 10 \<or> c = 12 \<or> c = 13 \<or> c = 32)"

definition strip_padding :: "jsstring \<Rightarrow> jsstring" where
  "strip_padding d =
     (case rev d of
        [] \<Rightarrow> d
      | [e1] \<Rightarrow> (if e1 = b64_pad then [] else d)
      | e1 # e2 # r \<Rightarrow>
          (if e1 = b64_pad then (if e2 = b64_pad then rev r else rev (e2 # r)) else d))"

text \<open>
  \<open>atob\<close> is the forgiving base64 decoder: ASCII whitespace is dropped, one or two
  trailing \<open>=\<close> are removed when the length is a multiple of four, a length of one
  modulo four or a character outside the alphabet throws.
\<close>

definition atob :: "jsstring \<Rightarrow> js_error + jsstring" where
  "atob data =
     (let d1 = filter (\<lambda>c. \<not> is_ascii_whitespace c) data;
          d2 = (if length d1 mod 4 = 0 then strip_padding d1 else d1)
      in if length d2 mod 4 = 1 then Inl InvalidCharacterError
         else if list_all (\<lambda>c. b64_index c \<noteq> None) d2
           then Inr (map of_nat (b64_decode (map (\<lambda>c. the (b64_index c)) d2)))
         else Inl InvalidCharacterError)"

subsection \<open>TextEncoder\<close>

definition is_high_surrogate :: "16 word \<Rightarrow> bool" where
  "is_high_surrogate c = (0xD800 \<le> c \<and> c \<le> 0xDBFF)"

definition is_low_surrogate :: "16 word \<Rightarrow> bool" where
  "is_low_surrogate c = (0xDC00 \<le> c \<and> c \<le> 0xDFFF)"

text \<open>Code units to scalar values: a surrogate without its partner becomes U+FFFD.\<close>

fun code_points :: "jsstring \<Rightarrow> nat list" where
  "code_points [] = []"
| "code_points [c] = [if is_high_surrogate c \<or> is_low_surrogate c then 0xFFFD else unat c]"
| "code_points (c # d # r) =
     (if is_high_surrogate c \<and> is_low_surrogate d
      then (0x10000 + (unat c - 0xD800) * 0x400 + (unat d - 0xDC00)) # code_points r
      else (if is_high_surrogate c \<or> is_low_surrogate c then 0xFFFD else unat c)
           # code_points (d # r))"

definition utf8_of :: "nat \<Rightarrow> nat list" where
  "utf8_of cp =
     (if cp < 0x80 then [cp]
      else if cp < 0x800 then [0xC0 + cp div 64, 0x80 + cp mod 64]
      else if cp < 0x10000 then [0xE0 + cp div 4096, 0x80 + (cp div 64) mod 64, 0x80 + cp mod 64]
      else [0xF0 + cp div 262144, 0x80 + (cp div 4096) mod 64, 0x80 + (cp div 64) mod 64,
            0x80 + cp mod 64])"

definition TextEncoder_encode :: "jsstring \<Rightarrow> 8 word list" where
  "TextEncoder_encode s = map of_nat (concat (map utf8_of (code_points s)))"

subsection \<open>SHA-256 (crypto.subtle.digest)\<close>

text \<open>
  The round constants and the initial hash value of FIPS 180-4, in decimal: the first 32
  bits of the fractional parts of the cube roots of the first 64 primes, and of the
  square roots of the first 8.
\<close>

definition sha256_K :: "32 word list" where
  "sha256_K =
    [1116352408, 1899447441, 3049323471, 3921009573, 961987163, 1508970993, 2453635748, 2870763221,
     3624381080, 310598401, 607225278, 1426881987, 1925078388, 2162078206, 2614888103, 3248222580,
     3835390401, 4022224774, 264347078, 604807628, 770255983, 1249150122, 1555081692, 1996064986,
     2554220882, 2821834349, 2952996808, 3210313671, 3336571891, 3584528711, 113926993, 338241895,
     666307205, 773529912, 1294757372, 1396182291, 1695183700, 1986661051, 2177026350, 2456956037,
     2730485921, 2820302411, 3259730800, 3345764771, 3516065817, 3600352804, 4094571909, 275423344,
     430227734, 506948616, 659060556, 883997877, 958139571, 1322822218, 1537002063, 1747873779,
     1955562222, 2024104815, 2227730452, 2361852424, 2428436474, 2756734187, 3204031479, 3329325298]"

definition sha256_H0 :: "32 word list" where
  "sha256_H0 =
    [1779033703, 3144134277, 1013904242, 2773480762, 1359893119, 2600822924, 528734635, 1541459225]"

definition rotr :: "nat \<Rightarrow> 32 word \<Rightarrow> 32 word" where
  "rotr n w = drop_bit n w OR push_bit (32 - n) w"

definition bsig0 :: "32 word \<Rightarrow> 32 word" where
  "bsig0 x = rotr 2 x XOR rotr 13 x XOR rotr 22 x"

definition bsig1 :: "32 word \<Rightarrow> 32 word" where
  "bsig1 x = rotr 6 x XOR rotr 11 x XOR rotr 25 x"

definition ssig0 :: "32 word \<Rightarrow> 32 word" where
  "ssig0 x = rotr 7 x XOR rotr 18 x XOR drop_bit 3 x"

definition ssig1 :: "32 word \<Rightarrow> 32 word" where
  "ssig1 x = rotr 17 x XOR rotr 19 x XOR drop_bit 10 x"

definition sha_ch :: "32 word \<Rightarrow> 32 word \<Rightarrow> 32 word \<Rightarrow> 32 word" where
  "sha_ch x y z = (x AND y) XOR (NOT x AND z)"

definition sha_maj :: "32 word \<Rightarrow> 32 word \<Rightarrow> 32 word \<Rightarrow> 32 word" where
  "sha_maj x y z = (x AND y) XOR (x AND z) XOR (y AND z)"

text \<open>Padding: a 1 bit, zeros up to 56 modulo 64 bytes, the bit length on 64 bits.\<close>

definition sha256_pad :: "8 word list \<Rightarrow> 8 word list" where
  "sha256_pad m =
     (let l = length m;
          z = (55 + 64 - l mod 64) mod 64;
          bits = (of_nat (l * 8) :: 64 word)
      in m @ [0x80] @ replicate z 0 @
         map (\<lambda>i. ucast (drop_bit (8 * (7 - i)) bits)) [0..<8])"

fun be_words :: "8 word list \<Rightarrow> 32 word list" where
  "be_words (a # b # c # d # rest) =
     (push_bit 24 (ucast a) OR push_bit 16 (ucast b) OR push_bit 8 (ucast c) OR ucast d)
       # be_words rest"
| "be_words _ = []"

fun schedule :: "nat \<Rightarrow> 32 word list \<Rightarrow> 32 word list" where
  "schedule 0 ws = ws"
| "schedule (Suc n) ws =
     (let l = length ws in
      schedule n (ws @ [ssig1 (ws ! (l - 2)) + ws ! (l - 7) + ssig0 (ws ! (l - 15))
                          + ws ! (l - 16)]))"

definition sha_round :: "32 word \<times> 32 word \<Rightarrow> 32 word list \<Rightarrow> 32 word list" where
  "sha_round kw st =
     (case st of
        [a, b, c, d, e, f, g, h] \<Rightarrow>
          (let t1 = h + bsig1 e + sha_ch e f g + fst kw + snd kw;
               t2 = bsig0 a + sha_maj a b c
           in [t1 + t2, a, b, c, d + t1, e, f, g])
      | _ \<Rightarrow> st)"

definition compress :: "32 word list \<Rightarrow> 32 word list \<Rightarrow> 32 word list" where
  "compress block hs =
     map (\<lambda>(x, y). x + y) (zip hs (fold sha_round (zip sha256_K (schedule 48 block)) hs))"

fun blocks16 :: "nat \<Rightarrow> 32 word list \<Rightarrow> 32 word list list" where
  "blocks16 0 ws = []"
| "blocks16 (Suc n) ws = take 16 ws # blocks16 n (drop 16 ws)"

definition word_bytes :: "32 word \<Rightarrow> 8 word list" where
  "word_bytes w = [ucast (drop_bit 24 w), ucast (drop_bit 16 w), ucast (drop_bit 8 w), ucast w]"

definition sha256 :: "8 word list \<Rightarrow> 8 word list" where
  "sha256 m =
     (let ws = be_words (sha256_pad m)
      in concat (map word_bytes (fold compress (blocks16 (length ws div 16) ws) sha256_H0)))"

section \<open>PKCE helpers (identical in every provider handler)\<close>

text \<open>\<open>String.fromCharCode.apply(null, Array.from(bytes))\<close>.\<close>

definition String_fromCharCode :: "8 word list \<Rightarrow> jsstring" where
  "String_fromCharCode bs = map ucast bs"

text \<open>\<open>.replace(/\+/g, '-').replace(/\//g, '_').replace(/=/g, '')\<close>.\<close>

definition url_safe :: "jsstring \<Rightarrow> jsstring" where
  "url_safe s =
     filter (\<lambda>c. c \<noteq> 61)
       (map (\<lambda>c. if c = 47 then 95 else c) (map (\<lambda>c. if c = 43 then 45 else c) s))"

text \<open>
  \<open>generateCodeVerifier\<close>: the 32 bytes \<open>crypto.getRandomValues\<close> filled in are the
  argument \<open>array\<close>.
\<close>

definition generateCodeVerifier :: "8 word list \<Rightarrow> js_error + jsstring" where
  "generateCodeVerifier array =
     (case btoa (String_fromCharCode array) of
        Inl err \<Rightarrow> Inl err
      | Inr b \<Rightarrow> Inr (url_safe b))"

definition generateCodeChallenge :: "jsstring \<Rightarrow> js_error + jsstring" where
  "generateCodeChallenge verifier =
     (let data = TextEncoder_encode verifier;
          digest = sha256 data
      in case btoa (String_fromCharCode digest) of
           Inl err \<Rightarrow> Inl err
         | Inr b \<Rightarrow> Inr (url_safe b))"

text \<open>
  The specification's encoding, written from its words (RFC 4648 section 5): base64 with
  the URL-safe alphabet and no padding.
\<close>

definition b64url_char :: "nat \<Rightarrow> 16 word" where
  "b64url_char n = of_nat
     (if n < 26 then n + 65 else if n < 52 then n + 71 else if n < 62 then n - 4
      else if n = 62 then 45 else 95)"

fun base64url_nopad :: "nat list \<Rightarrow> jsstring" where
  "base64url_nopad [] = []"
| "base64url_nopad [a] = [b64url_char (a div 4), b64url_char ((a mod 4) * 16)]"
| "base64url_nopad [a, b] =
     [b64url_char (a div 4), b64url_char ((a mod 4) * 16 + b div 16),
      b64url_char ((b mod 16) * 4)]"
| "base64url_nopad (a # b # c # rest) =
     b64url_char (a div 4) # b64url_char ((a mod 4) * 16 + b div 16) #
     b64url_char ((b mod 16) * 4 + c div 64) # b64url_char (c mod 64) # base64url_nopad rest"

definition deriveChallenge_spec :: "jsstring \<Rightarrow> jsstring" where
  "deriveChallenge_spec verifier = base64url_nopad (map unat (sha256 (TextEncoder_encode verifier)))"

text \<open>What the three \<open>replace\<close> calls do to one character.\<close>

definition url_safe_char :: "16 word \<Rightarrow> 16 word" where
  "url_safe_char c = (if (if c = 43 then 45 else c) = 47 then 95 else (if c = 43 then 45 else c))"

section \<open>JSON values and JSON.parse\<close>

text \<open>
  A parsed JSON value. A number keeps the exact value of its literal: sign, decimal
  mantissa and decimal exponent (\<open>\<plusminus> m \<times> 10\<^sup>e\<close>). An object keeps its members in
  textual order; reading a property takes the last member of that name.

  The last constructor is not JSON: \<open>JMethod name\<close> is the built-in function that
  reading the property \<open>name\<close> of a primitive finds on its prototype
  (\<open>"hello".sub\<close> is \<open>String.prototype.sub\<close>). \<open>JSON.parse\<close> never yields it; it
  only arises from a property read.
\<close>

datatype json =
    JNull
  | JBool bool
  | JNum bool nat int
  | JStr jsstring
  | JArr "json list"
  | JObj "(jsstring \<times> json) list"
  | JMethod jsstring

definition is_json_ws :: "16 word \<Rightarrow> bool" where
  "is_json_ws c = (c = 32 \<or> c = 9 \<or> c = 10 \<or> c = 13)"

definition skip_ws :: "jsstring \<Rightarrow> jsstring" where
  "skip_ws s = dropWhile is_json_ws s"

definition hex_value :: "16 word \<Rightarrow> nat option" where
  "hex_value c =
     (let n = unat c in
      if 48 \<le> n \<and> n \<le> 57 then Some (n - 48)
      else if 65 \<le> n \<and> n \<le> 70 then Some (n - 55)
      else if 97 \<le> n \<and> n \<le> 102 then Some (n - 87)
      else None)"

text \<open>The character after a backslash: \<open>"\<close>, \<open>\\<close>, \<open>/\<close>, \<open>b\<close>, \<open>f\<close>, \<open>n\<close>, \<open>r\<close>, \<open>t\<close>.\<close>

definition unescape :: "16 word \<Rightarrow> 16 word option" where
  "unescape e =
     (if e = 34 then Some 34
      else if e = 92 then Some 92
      else if e = 47 then Some 47
      else if e = 98 then Some 8
      else if e = 102 then Some 12
      else if e = 110 then Some 10
      else if e = 114 then Some 13
      else if e = 116 then Some 9
      else None)"

text \<open>
  The characters of a string literal after its opening quote, up to the closing quote:
  the decoded string and the rest of the input.
\<close>

fun parse_chars :: "jsstring \<Rightarrow> (jsstring \<times> jsstring) option" where
  "parse_chars [] = None"
| "parse_chars (c # cs) =
     (if c = 34 then Some ([], cs)
      else if c = 92 then
        (case cs of
           [] \<Rightarrow> None
         | e # r \<Rightarrow>
             (if e = 117 then
                (case r of
                   h1 # h2 # h3 # h4 # r' \<Rightarrow>
                     (case (hex_value h1, hex_value h2, hex_value h3, hex_value h4) of
                        (Some a, Some b, Some c', Some d) \<Rightarrow>
                          (case parse_chars r' of
                             None \<Rightarrow> None
                           | Some (s, rest) \<Rightarrow>
                               Some (of_nat (((a * 16 + b) * 16 + c') * 16 + d) # s, rest))
                      | _ \<Rightarrow> None)
                 | _ \<Rightarrow> None)
              else
                (case unescape e of
                   None \<Rightarrow> None
                 | Some x \<Rightarrow>
                     (case parse_chars r of
                        None \<Rightarrow> None
                      | Some (s, rest) \<Rightarrow> Some (x # s, rest)))))
      else if unat c < 32 then None
      else (case parse_chars cs of
              None \<Rightarrow> None
            | Some (s, rest) \<Rightarrow> Some (c # s, rest)))"

definition is_digit :: "16 word \<Rightarrow> bool" where
  "is_digit c = (48 \<le> unat c \<and> unat c \<le> 57)"

fun digits_value :: "nat \<Rightarrow> jsstring \<Rightarrow> nat" where
  "digits_value acc [] = acc"
| "digits_value acc (c # cs) = digits_value (acc * 10 + (unat c - 48)) cs"

definition starts_with :: "jsstring \<Rightarrow> (16 word \<Rightarrow> bool) \<Rightarrow> bool" where
  "starts_with s P = (case s of [] \<Rightarrow> False | c # _ \<Rightarrow> P c)"

text \<open>
  A number literal: \<open>-? (0 | [1-9][0-9]*) (. [0-9]+)? ([eE] [+-]? [0-9]+)?\<close>.
\<close>

definition parse_number :: "jsstring \<Rightarrow> (json \<times> jsstring) option" where
  "parse_number s =
     (let neg = starts_with s (\<lambda>c. c = 45);
          s1 = (if neg then tl s else s);
          ip = (if starts_with s1 (\<lambda>c. c = 48) then take 1 s1 else takeWhile is_digit s1);
          s2 = drop (length ip) s1
      in if ip = [] then None
         else
           (let has_frac = starts_with s2 (\<lambda>c. c = 46);
                fp = (if has_frac then takeWhile is_digit (tl s2) else []);
                s3 = (if has_frac then drop (length fp) (tl s2) else s2)
            in if has_frac \<and> fp = [] then None
               else
                 (let has_exp = starts_with s3 (\<lambda>c. c = 101 \<or> c = 69);
                      s4 = (if has_exp then tl s3 else s3);
                      eneg = (has_exp \<and> starts_with s4 (\<lambda>c. c = 45));
                      s5 = (if has_exp \<and> starts_with s4 (\<lambda>c. c = 45 \<or> c = 43)
                            then tl s4 else s4);
                      ep = (if has_exp then takeWhile is_digit s5 else []);
                      s6 = drop (length ep) s5
                  in if has_exp \<and> ep = [] then None
                     else Some (JNum neg (digits_value 0 (ip @ fp))
                                  ((if eneg then - int (digits_value 0 ep)
                                    else int (digits_value 0 ep)) - int (length fp)),
                                s6))))"

text \<open>
  Recursive descent over the JSON grammar. The first argument bounds the depth of the
  calls; \<open>JSON_parse\<close> starts it above the length of the text, and every call below
  the first has consumed a character.
\<close>

fun parse_value :: "nat \<Rightarrow> jsstring \<Rightarrow> (json \<times> jsstring) option"
  and parse_elements :: "nat \<Rightarrow> jsstring \<Rightarrow> (json list \<times> jsstring) option"
  and parse_members :: "nat \<Rightarrow> jsstring \<Rightarrow> ((jsstring \<times> json) list \<times> jsstring) option"
where
  "parse_value 0 s = None"
| "parse_value (Suc n) s =
     (case s of
        [] \<Rightarrow> None
      | c # cs \<Rightarrow>
          if c = 34 then
            (case parse_chars cs of
               None \<Rightarrow> None
             | Some (str, r) \<Rightarrow> Some (JStr str, r))
          else if c = 91 then
            (case skip_ws cs of
               [] \<Rightarrow> None
             | d # r \<Rightarrow>
                 if d = 93 then Some (JArr [], r)
                 else (case parse_elements n (d # r) of
                         None \<Rightarrow> None
                       | Some (vs, r') \<Rightarrow> Some (JArr vs, r')))
          else if c = 123 then
            (case skip_ws cs of
               [] \<Rightarrow> None
             | d # r \<Rightarrow>
                 if d = 125 then Some (JObj [], r)
                 else (case parse_members n (d # r) of
                         None \<Rightarrow> None
                       | Some (ms, r') \<Rightarrow> Some (JObj ms, r')))
          else if take 4 s = js ''null'' then Some (JNull, drop 4 s)
          else if take 4 s = js ''true'' then Some (JBool True, drop 4 s)
          else if take 5 s = js ''false'' then Some (JBool False, drop 5 s)
          else parse_number s)"
| "parse_elements 0 s = None"
| "parse_elements (Suc n) s =
     (case parse_value n s of
        None \<Rightarrow> None
      | Some (v, r) \<Rightarrow>
          (case skip_ws r of
             [] \<Rightarrow> None
           | d # r' \<Rightarrow>
               if d = 93 then Some ([v], r')
               else if d = 44 then
                 (case parse_elements n (skip_ws r') of
                    None \<Rightarrow> None
                  | Some (vs, r'') \<Rightarrow> Some (v # vs, r''))
               else None))"
| "parse_members 0 s = None"
| "parse_members (Suc n) s =
     (case s of
        [] \<Rightarrow> None
      | c # cs \<Rightarrow>
          if c \<noteq> 34 then None
          else
            (case parse_chars cs of
               None \<Rightarrow> None
             | Some (k, r) \<Rightarrow>
                 (case skip_ws r of
                    [] \<Rightarrow> None
                  | d # r1 \<Rightarrow>
                      if d \<noteq> 58 then None
                      else
                        (case parse_value n (skip_ws r1) of
                           None \<Rightarrow> None
                         | Some (v, r2) \<Rightarrow>
                             (case skip_ws r2 of
                                [] \<Rightarrow> None
                              | d2 # r3 \<Rightarrow>
                                  if d2 = 125 then Some ([(k, v)], r3)
                                  else if d2 = 44 then
                                    (case parse_members n (skip_ws r3) of
                                       None \<Rightarrow> None
                                     | Some (ms, r4) \<Rightarrow> Some ((k, v) # ms, r4))
                                  else None)))))"

text \<open>\<open>JSON.parse(text)\<close>: \<open>None\<close> is the thrown \<open>SyntaxError\<close>.\<close>

definition JSON_parse :: "jsstring \<Rightarrow> json option" where
  "JSON_parse s =
     (case parse_value (Suc (length s)) (skip_ws s) of
        None \<Rightarrow> None
      | Some (v, r) \<Rightarrow> if skip_ws r = [] then Some v else None)"

subsection \<open>JavaScript values read from parsed JSON\<close>

text \<open>
  A JavaScript value here is a JSON value, a built-in method or \<open>undefined\<close>
  (\<open>None\<close>). A number is falsy when its literal rounds to zero as a double: the
  mantissa is zero or the value is at most \<open>2\<^sup>-\<^sup>1\<^sup>0\<^sup>7\<^sup>5\<close>, half the smallest
  subnormal. A function is truthy.
\<close>

type_synonym jsval = "json option"

definition rounds_to_zero :: "nat \<Rightarrow> int \<Rightarrow> bool" where
  "rounds_to_zero m e = (m = 0 \<or> (e < 0 \<and> m * 2 ^ 1075 \<le> 10 ^ nat (- e)))"

fun truthy_json :: "json \<Rightarrow> bool" where
  "truthy_json JNull = False"
| "truthy_json (JBool b) = b"
| "truthy_json (JNum neg m e) = (\<not> rounds_to_zero m e)"
| "truthy_json (JStr s) = (s \<noteq> [])"
| "truthy_json (JArr vs) = True"
| "truthy_json (JObj ms) = True"
| "truthy_json (JMethod f) = True"

definition truthy :: "jsval \<Rightarrow> bool" where
  "truthy v = (case v of None \<Rightarrow> False | Some j \<Rightarrow> truthy_json j)"

text \<open>
  \<open>v.k\<close> for the property names read below: \<open>clientId\<close>, \<open>codeVerifier\<close>,
  \<open>scope\<close>, \<open>access_token\<close>, \<open>email\<close>, \<open>sub\<close>, \<open>preferred_username\<close>, \<open>nickname\<close>,
  \<open>user_id\<close> and \<open>username\<close>. On \<open>null\<close> the read throws a \<open>TypeError\<close>. On an object it is the member of that name, \<open>undefined\<close> when there is
  none (\<open>Object.prototype\<close> has none of these names). On a string the property is
  looked up on \<open>String.prototype\<close>, which has one of these names, the method \<open>sub\<close>;
  so \<open>"hello".sub\<close> is a function and every other name is \<open>undefined\<close>. The
  prototypes of booleans, numbers, arrays and functions have none of these names.
\<close>

definition get_prop :: "json \<Rightarrow> jsstring \<Rightarrow> js_error + jsval" where
  "get_prop v k =
     (case v of
        JNull \<Rightarrow> Inl TypeError
      | JObj ms \<Rightarrow> Inr (map_of (rev ms) k)
      | JStr s \<Rightarrow> Inr (if k = js ''sub'' then Some (JMethod (js ''sub'')) else None)
      | _ \<Rightarrow> Inr None)"

text \<open>\<open>a || b\<close> on values.\<close>

definition or_js :: "jsval \<Rightarrow> jsval \<Rightarrow> jsval" where
  "or_js a b = (if truthy a then a else b)"


section \<open>Provider callback handlers\<close>

text \<open>
  Sequencing with exceptions: \<open>try_js m f\<close> continues with \<open>f\<close> unless \<open>m\<close> threw.
\<close>

definition try_js :: "js_error + 'a \<Rightarrow> ('a \<Rightarrow> js_error + 'b) \<Rightarrow> js_error + 'b" where
  "try_js m f = (case m of Inl err \<Rightarrow> Inl err | Inr x \<Rightarrow> f x)"

text \<open>A string argument or template hole holding an optional string.\<close>

definition str_of_opt :: "jsstring option \<Rightarrow> jsstring" where
  "str_of_opt v = (case v of None \<Rightarrow> js ''undefined'' | Some s \<Rightarrow> s)"

text \<open>A non-negative integer in a template literal: its decimal digits.\<close>

fun show_nat :: "nat \<Rightarrow> jsstring" where
  "show_nat n = (if n < 10 then [of_nat (48 + n)]
                 else show_nat (n div 10) @ [of_nat (48 + n mod 10)])"

declare show_nat.simps [simp del]

subsection \<open>encodeURIComponent\<close>

definition URIError :: js_error where
  "URIError = JsError (js ''URIError'') (js ''URI malformed'')"

fun well_formed_utf16 :: "jsstring \<Rightarrow> bool" where
  "well_formed_utf16 [] = True"
| "well_formed_utf16 [c] = (\<not> is_high_surrogate c \<and> \<not> is_low_surrogate c)"
| "well_formed_utf16 (c # d # r) =
     (if is_high_surrogate c \<and> is_low_surrogate d then well_formed_utf16 r
      else \<not> is_high_surrogate c \<and> \<not> is_low_surrogate c \<and> well_formed_utf16 (d # r))"

definition uri_unreserved :: "nat \<Rightarrow> bool" where
  "uri_unreserved n =
     ((65 \<le> n \<and> n \<le> 90) \<or> (97 \<le> n \<and> n \<le> 122) \<or> (48 \<le> n \<and> n \<le> 57) \<or>
      n = 45 \<or> n = 95 \<or> n = 46 \<or> n = 33 \<or> n = 126 \<or> n = 42 \<or> n = 39 \<or> n = 40 \<or> n = 41)"

definition hex_upper :: "nat \<Rightarrow> 16 word" where
  "hex_upper n = of_nat (if n < 10 then 48 + n else 55 + n)"

definition percent_byte :: "nat \<Rightarrow> jsstring" where
  "percent_byte b = [37, hex_upper (b div 16), hex_upper (b mod 16)]"

definition encodeURIComponent :: "jsstring \<Rightarrow> js_error + jsstring" where
  "encodeURIComponent s =
     (if \<not> well_formed_utf16 s then Inl URIError
      else Inr (concat (map (\<lambda>cp. if uri_unreserved cp then [of_nat cp]
                                   else concat (map percent_byte (utf8_of cp)))
                  (code_points s))))"

subsection \<open>Collaborators\<close>

text \<open>
  The upstream provider answers a \<open>fetch\<close> with a response or makes it throw. The
  body is the text that \<open>.text()\<close> returns and \<open>.json()\<close> parses.
\<close>

record fetch_response =
  resp_status :: nat
  resp_statusText :: jsstring
  resp_body :: jsstring

definition resp_ok :: "fetch_response \<Rightarrow> bool" where
  "resp_ok resp = (200 \<le> resp_status resp \<and> resp_status resp \<le> 299)"

text \<open>
  The token request: its endpoint and the fields of \<open>tokenRequestData\<close>;
  \<open>tr_client_secret\<close> is \<open>None\<close> when the field is not sent.
\<close>

record token_request =
  tr_endpoint :: jsstring
  tr_grant_type :: jsstring
  tr_client_id :: jsstring
  tr_client_secret :: "jsstring option"
  tr_code :: jsstring
  tr_redirect_uri :: jsstring
  tr_code_verifier :: jsval

text \<open>
  What is handed to \<open>OAUTH_PROVIDER.completeAuthorization\<close>: of \<open>props\<close> the access
  token and the login are kept (the display fields are left out), then \<open>request\<close>,
  \<open>scope\<close> and \<open>userId\<close>.
\<close>

record completion =
  props_accessToken :: jsval
  props_login :: jsval
  comp_request :: json
  comp_scope :: jsval
  comp_userId :: jsval

record collaborators =
  token_reply :: "token_request \<Rightarrow> js_error + fetch_response"
  userinfo_reply :: "jsstring \<Rightarrow> jsval \<Rightarrow> js_error + fetch_response"
  completeAuthorization :: "completion \<Rightarrow> jsstring"

text \<open>What a handler did: the outbound calls and the completion, in order.\<close>

datatype event =
    TokenFetch token_request
  | UserinfoFetch jsstring jsval
  | CompleteAuthorization completion

type_synonym outcome = "(js_error + response) \<times> event list"

subsection \<open>Decoding the state parameter\<close>

text \<open>
  \<open>JSON.parse(atob(c.req.query("state") as string))\<close>: a missing parameter reaches
  \<open>atob\<close> as \<open>undefined\<close> and is converted to the string \<open>"undefined"\<close>.
\<close>

definition decode_state :: "jsstring option \<Rightarrow> js_error + json" where
  "decode_state st =
     try_js (atob (str_of_opt st))
       (\<lambda>txt. case JSON_parse txt of None \<Rightarrow> Inl SyntaxError | Some v \<Rightarrow> Inr v)"

text \<open>\<open>response.json()\<close>.\<close>

definition resp_json :: "fetch_response \<Rightarrow> js_error + json" where
  "resp_json resp = (case JSON_parse (resp_body resp) of None \<Rightarrow> Inl SyntaxError | Some v \<Rightarrow> Inr v)"

subsection \<open>Login derivation\<close>

text \<open>\<open>v.split(sep)[i]\<close>: a \<open>TypeError\<close> unless \<open>v\<close> is a string.\<close>

definition split_at :: "16 word \<Rightarrow> nat \<Rightarrow> jsval \<Rightarrow> js_error + jsval" where
  "split_at sep i v =
     (case v of
        Some (JStr s) \<Rightarrow> Inr (map_option JStr (index_js (split_js sep s) i))
      | _ \<Rightarrow> Inl TypeError)"

text \<open>\<open>v?.split(sep)[i]\<close>: \<open>undefined\<close> when \<open>v\<close> is \<open>undefined\<close> or \<open>null\<close>.\<close>

definition opt_split_at :: "16 word \<Rightarrow> nat \<Rightarrow> jsval \<Rightarrow> js_error + jsval" where
  "opt_split_at sep i v =
     (case v of
        None \<Rightarrow> Inr None
      | Some JNull \<Rightarrow> Inr None
      | _ \<Rightarrow> split_at sep i v)"

text \<open>Google: \<open>const login = email.split('@')[0]\<close>.\<close>

definition google_login :: "json \<Rightarrow> js_error + jsval" where
  "google_login userData =
     try_js (get_prop userData (js ''email'')) (\<lambda>email. split_at 64 0 email)"

text \<open>
  Keycloak: \<open>preferred_username || email?.split('@')[0] || sub || 'unknown'\<close>.
\<close>

definition keycloak_login :: "json \<Rightarrow> js_error + jsval" where
  "keycloak_login userData =
     try_js (get_prop userData (js ''sub'')) (\<lambda>sub.
     try_js (get_prop userData (js ''email'')) (\<lambda>email.
     try_js (get_prop userData (js ''preferred_username'')) (\<lambda>preferred_username.
       if truthy preferred_username then Inr preferred_username
       else try_js (opt_split_at 64 0 email) (\<lambda>local.
         if truthy local then Inr local
         else if truthy sub then Inr sub
         else Inr (Some (JStr (js ''unknown'')))))))"

text \<open>
  Auth0: \<open>nickname || email?.split('@')[0] || sub.split('|')[1] || 'unknown'\<close>.
\<close>

definition auth0_login :: "json \<Rightarrow> js_error + jsval" where
  "auth0_login userData =
     try_js (get_prop userData (js ''sub'')) (\<lambda>sub.
     try_js (get_prop userData (js ''email'')) (\<lambda>email.
     try_js (get_prop userData (js ''nickname'')) (\<lambda>nickname.
       if truthy nickname then Inr nickname
       else try_js (opt_split_at 64 0 email) (\<lambda>local.
         if truthy local then Inr local
         else try_js (split_at 124 1 sub) (\<lambda>tail.
           if truthy tail then Inr tail
           else Inr (Some (JStr (js ''unknown''))))))))"

text \<open>Custom OAuth: \<open>username || user_id || 'demo_user'\<close>.\<close>

definition custom_login :: "json \<Rightarrow> js_error + jsval" where
  "custom_login userData =
     try_js (get_prop userData (js ''user_id'')) (\<lambda>user_id.
     try_js (get_prop userData (js ''username'')) (\<lambda>username.
       Inr (or_js username (or_js user_id (Some (JStr (js ''demo_user'')))))))"


subsection \<open>The callback handlers\<close>

text \<open>A property of a value that is known not to be \<open>null\<close>.\<close>

definition prop_of :: "json \<Rightarrow> jsstring \<Rightarrow> jsval" where
  "prop_of v k = (case get_prop v k of Inl err \<Rightarrow> None | Inr x \<Rightarrow> x)"

text \<open>\<open>v || d\<close> for an optional string and a default.\<close>

definition or_str :: "jsstring option \<Rightarrow> jsstring \<Rightarrow> jsstring" where
  "or_str v d = (case v of None \<Rightarrow> d | Some s \<Rightarrow> if s = [] then d else s)"

text \<open>
  Google (google-handler.ts). The token exchange and the userinfo fetch each sit in a
  \<open>try\<close> of their own; reading \<open>access_token\<close> and deriving the login are outside.
\<close>

definition google_finish :: "collaborators \<Rightarrow> json \<Rightarrow> jsval \<Rightarrow> json \<Rightarrow> event list \<Rightarrow> outcome" where
  "google_finish co oauthReqInfo accessToken userData evs =
     (case google_login userData of
        Inl err \<Rightarrow> (Inl err, evs)
      | Inr login \<Rightarrow>
          (let comp = \<lparr> props_accessToken = accessToken, props_login = login,
                        comp_request = oauthReqInfo,
                        comp_scope = prop_of oauthReqInfo (js ''scope''),
                        comp_userId = login \<rparr>
           in (Inr (RedirectResponse (completeAuthorization co comp) 302 []),
               evs @ [CompleteAuthorization comp])))"

definition google_userinfo :: "collaborators \<Rightarrow> json \<Rightarrow> jsval \<Rightarrow> event list \<Rightarrow> outcome" where
  "google_userinfo co oauthReqInfo accessToken evs =
     (let userinfoEndpoint = js ''https://www.googleapis.com/oauth2/v2/userinfo'';
          evs' = evs @ [UserinfoFetch userinfoEndpoint accessToken] in
      case userinfo_reply co userinfoEndpoint accessToken of
        Inl err \<Rightarrow>
          (Inr (TextResponse
             (js ''Network error while fetching user information. Please try again.'') 500), evs')
      | Inr userResponse \<Rightarrow>
          if \<not> resp_ok userResponse then
            (Inr (TextResponse (js ''Failed to fetch user info: '' @
                     show_nat (resp_status userResponse)) 500), evs')
          else
            (case resp_json userResponse of
               Inl err \<Rightarrow>
                 (Inr (TextResponse
                    (js ''Network error while fetching user information. Please try again.'') 500),
                  evs')
             | Inr userData \<Rightarrow> google_finish co oauthReqInfo accessToken userData evs'))"

definition google_token :: "collaborators \<Rightarrow> token_request \<Rightarrow> json \<Rightarrow> outcome" where
  "google_token co tokenRequestData oauthReqInfo =
     (let evs = [TokenFetch tokenRequestData] in
      case token_reply co tokenRequestData of
        Inl err \<Rightarrow>
          (Inr (TextResponse (js ''Network error during authentication. Please try again.'') 500),
           evs)
      | Inr tokenResponse \<Rightarrow>
          if \<not> resp_ok tokenResponse then
            (Inr (TextResponse (js ''Failed to fetch access token: '' @
                     show_nat (resp_status tokenResponse)) 500), evs)
          else
            (case resp_json tokenResponse of
               Inl err \<Rightarrow>
                 (Inr (TextResponse
                    (js ''Network error during authentication. Please try again.'') 500), evs)
             | Inr tokenData \<Rightarrow>
                 (case get_prop tokenData (js ''access_token'') of
                    Inl err \<Rightarrow> (Inl err, evs)
                  | Inr accessToken \<Rightarrow>
                      if \<not> truthy accessToken then
                        (Inr (TextResponse (js ''Missing access token'') 400), evs)
                      else google_userinfo co oauthReqInfo accessToken evs)))"

definition google_exchange :: "env \<Rightarrow> collaborators \<Rightarrow> request \<Rightarrow> json \<Rightarrow> jsstring \<Rightarrow> outcome" where
  "google_exchange e co r oauthReqInfo authCode =
     google_token co
       \<lparr> tr_endpoint = js ''https://oauth2.googleapis.com/token'',
         tr_grant_type = js ''authorization_code'',
         tr_client_id = str_of_opt (GOOGLE_CLIENT_ID e),
         tr_client_secret = Some (str_of_opt (GOOGLE_CLIENT_SECRET e)),
         tr_code = authCode,
         tr_redirect_uri = url_origin (url r) @ js ''/google/callback'',
         tr_code_verifier = prop_of oauthReqInfo (js ''codeVerifier'') \<rparr>
       oauthReqInfo"

definition google_callback :: "env \<Rightarrow> collaborators \<Rightarrow> request \<Rightarrow> outcome" where
  "google_callback e co r =
     (case decode_state (req_query r (js ''state'')) of
        Inl err \<Rightarrow> (Inl err, [])
      | Inr oauthReqInfo \<Rightarrow>
          (case get_prop oauthReqInfo (js ''clientId'') of
             Inl err \<Rightarrow> (Inl err, [])
           | Inr clientId \<Rightarrow>
               if \<not> truthy clientId then (Inr (TextResponse (js ''Invalid state'') 400), [])
               else
                 (case req_query r (js ''code'') of
                    None \<Rightarrow>
                      (Inr (TextResponse (js ''Missing authorization code. Please try again.'') 400),
                       [])
                  | Some authCode \<Rightarrow>
                      if authCode = [] then
                        (Inr (TextResponse
                           (js ''Missing authorization code. Please try again.'') 400), [])
                      else google_exchange e co r oauthReqInfo authCode)))"

text \<open>
  Keycloak, Auth0 and the custom OAuth server (keycloak-handler.ts, auth0-handler.ts,
  custom-oauth-handler.ts): one \<open>try\<close> around the token exchange and the userinfo
  fetch, with the handler's \<open>catch\<close> block; deriving the login is outside it.
\<close>

text \<open>The \<open>catch\<close> block of the Keycloak callback.\<close>

definition keycloak_catch :: "js_error \<Rightarrow> response" where
  "keycloak_catch error =
     (if includes_js (err_message error) (js ''Network connection lost'') \<or>
         includes_js (err_message error) (js ''fetch failed'') \<or>
         err_name error = js ''TypeError''
      then TextResponse (js ''Network connectivity issue. Please check your internet connection and try again. If using a proxy, ensure it allows connections to Keycloak.'') 500
      else TextResponse (js ''Keycloak integration error: '' @ err_message error) 500)"

definition keycloak_finish :: "collaborators \<Rightarrow> json \<Rightarrow> jsval \<Rightarrow> json \<Rightarrow> event list \<Rightarrow> outcome" where
  "keycloak_finish co oauthReqInfo accessToken userData evs =
     (case keycloak_login userData of
        Inl err \<Rightarrow> (Inl err, evs)
      | Inr login \<Rightarrow>
          (let comp = \<lparr> props_accessToken = accessToken, props_login = login,
                        comp_request = oauthReqInfo,
                        comp_scope = prop_of oauthReqInfo (js ''scope''),
                        comp_userId = login \<rparr>
           in (Inr (RedirectResponse (completeAuthorization co comp) 302 []),
               evs @ [CompleteAuthorization comp])))"

definition keycloak_userinfo :: "collaborators \<Rightarrow> jsstring \<Rightarrow> json \<Rightarrow> jsval \<Rightarrow> event list \<Rightarrow> outcome" where
  "keycloak_userinfo co userinfoEndpoint oauthReqInfo accessToken evs =
     (let evs' = evs @ [UserinfoFetch userinfoEndpoint accessToken] in
      case userinfo_reply co userinfoEndpoint accessToken of
        Inl err \<Rightarrow> (Inr (keycloak_catch err), evs')
      | Inr userResponse \<Rightarrow>
          if \<not> resp_ok userResponse then
            (Inr (TextResponse (js ''Failed to fetch user info: '' @
                     show_nat (resp_status userResponse) @ js '' '' @
                     resp_statusText userResponse) 500), evs')
          else
            (case resp_json userResponse of
               Inl err \<Rightarrow> (Inr (keycloak_catch err), evs')
             | Inr userData \<Rightarrow> keycloak_finish co oauthReqInfo accessToken userData evs'))"

definition keycloak_token :: "collaborators \<Rightarrow> token_request \<Rightarrow> jsstring \<Rightarrow> json \<Rightarrow> outcome" where
  "keycloak_token co tokenRequestData userinfoEndpoint oauthReqInfo =
     (let evs = [TokenFetch tokenRequestData] in
      case token_reply co tokenRequestData of
        Inl err \<Rightarrow> (Inr (keycloak_catch err), evs)
      | Inr tokenResponse \<Rightarrow>
          if \<not> resp_ok tokenResponse then
            (Inr (TextResponse (js ''Failed to fetch access token: '' @
                     show_nat (resp_status tokenResponse) @ js '' '' @
                     resp_statusText tokenResponse) 500), evs)
          else
            (case resp_json tokenResponse of
               Inl err \<Rightarrow> (Inr (keycloak_catch err), evs)
             | Inr tokenData \<Rightarrow>
                 (case get_prop tokenData (js ''access_token'') of
                    Inl err \<Rightarrow> (Inr (keycloak_catch err), evs)
                  | Inr accessToken \<Rightarrow>
                      if \<not> truthy accessToken then
                        (Inr (TextResponse (js ''Missing access token in response'') 400), evs)
                      else keycloak_userinfo co userinfoEndpoint oauthReqInfo accessToken evs)))"

definition keycloak_exchange :: "env \<Rightarrow> collaborators \<Rightarrow> request \<Rightarrow> json \<Rightarrow> jsstring \<Rightarrow> outcome" where
  "keycloak_exchange e co r oauthReqInfo code =
     (case encodeURIComponent (str_of_opt (KEYCLOAK_REALM e)) of
        Inl err \<Rightarrow> (Inr (keycloak_catch err), [])
      | Inr encodedRealm \<Rightarrow>
          keycloak_token co
            \<lparr> tr_endpoint = str_of_opt (KEYCLOAK_DOMAIN e) @ js ''/realms/'' @ encodedRealm @ js ''/protocol/openid-connect/token'',
            tr_grant_type = js ''authorization_code'',
            tr_client_id = str_of_opt (KEYCLOAK_CLIENT_ID e),
            tr_client_secret = (if truthy_str (KEYCLOAK_CLIENT_SECRET e) then KEYCLOAK_CLIENT_SECRET e else None),
            tr_code = code,
            tr_redirect_uri = url_origin (url r) @ js ''/keycloak/callback'',
            tr_code_verifier = prop_of oauthReqInfo (js ''codeVerifier'') \<rparr>
            (str_of_opt (KEYCLOAK_DOMAIN e) @ js ''/realms/'' @ encodedRealm @
               js ''/protocol/openid-connect/userinfo'')
            oauthReqInfo)"

definition keycloak_callback :: "env \<Rightarrow> collaborators \<Rightarrow> request \<Rightarrow> outcome" where
  "keycloak_callback e co r =
     (case decode_state (req_query r (js ''state'')) of
        Inl err \<Rightarrow> (Inl err, [])
      | Inr oauthReqInfo \<Rightarrow>
          (case get_prop oauthReqInfo (js ''clientId'') of
             Inl err \<Rightarrow> (Inl err, [])
           | Inr clientId \<Rightarrow>
               if \<not> truthy clientId then (Inr (TextResponse (js ''Invalid state'') 400), [])
               else
                 (case req_query r (js ''code'') of
                    None \<Rightarrow> (Inr (TextResponse (js ''Missing authorization code'') 400), [])
                  | Some code \<Rightarrow>
                      if code = [] then
                        (Inr (TextResponse (js ''Missing authorization code'') 400), [])
                      else keycloak_exchange e co r oauthReqInfo code)))"

text \<open>The \<open>catch\<close> block of the Auth0 callback.\<close>

definition auth0_catch :: "js_error \<Rightarrow> response" where
  "auth0_catch error =
     (if includes_js (err_message error) (js ''Network connection lost'') \<or>
         includes_js (err_message error) (js ''fetch failed'') \<or>
         err_name error = js ''TypeError''
      then TextResponse (js ''Network connectivity issue. Please check your internet connection and try again. If using a proxy, ensure it allows connections to Auth0.'') 500
      else TextResponse (js ''Auth0 integration error: '' @ err_message error) 500)"

definition auth0_finish :: "collaborators \<Rightarrow> json \<Rightarrow> jsval \<Rightarrow> json \<Rightarrow> event list \<Rightarrow> outcome" where
  "auth0_finish co oauthReqInfo accessToken userData evs =
     (case auth0_login userData of
        Inl err \<Rightarrow> (Inl err, evs)
      | Inr login \<Rightarrow>
          (let comp = \<lparr> props_accessToken = accessToken, props_login = login,
                        comp_request = oauthReqInfo,
                        comp_scope = prop_of oauthReqInfo (js ''scope''),
                        comp_userId = login \<rparr>
           in (Inr (RedirectResponse (completeAuthorization co comp) 302 []),
               evs @ [CompleteAuthorization comp])))"

definition auth0_userinfo :: "collaborators \<Rightarrow> jsstring \<Rightarrow> json \<Rightarrow> jsval \<Rightarrow> event list \<Rightarrow> outcome" where
  "auth0_userinfo co userinfoEndpoint oauthReqInfo accessToken evs =
     (let evs' = evs @ [UserinfoFetch userinfoEndpoint accessToken] in
      case userinfo_reply co userinfoEndpoint accessToken of
        Inl err \<Rightarrow> (Inr (auth0_catch err), evs')
      | Inr userResponse \<Rightarrow>
          if \<not> resp_ok userResponse then
            (Inr (TextResponse (js ''Failed to fetch user info: '' @
                     show_nat (resp_status userResponse) @ js '' '' @
                     resp_statusText userResponse) 500), evs')
          else
            (case resp_json userResponse of
               Inl err \<Rightarrow> (Inr (auth0_catch err), evs')
             | Inr userData \<Rightarrow> auth0_finish co oauthReqInfo accessToken userData evs'))"

definition auth0_token :: "collaborators \<Rightarrow> token_request \<Rightarrow> jsstring \<Rightarrow> json \<Rightarrow> outcome" where
  "auth0_token co tokenRequestData userinfoEndpoint oauthReqInfo =
     (let evs = [TokenFetch tokenRequestData] in
      case token_reply co tokenRequestData of
        Inl err \<Rightarrow> (Inr (auth0_catch err), evs)
      | Inr tokenResponse \<Rightarrow>
          if \<not> resp_ok tokenResponse then
            (Inr (TextResponse (js ''Failed to fetch access token: '' @
                     show_nat (resp_status tokenResponse) @ js '' '' @
                     resp_statusText tokenResponse) 500), evs)
          else
            (case resp_json tokenResponse of
               Inl err \<Rightarrow> (Inr (auth0_catch err), evs)
             | Inr tokenData \<Rightarrow>
                 (case get_prop tokenData (js ''access_token'') of
                    Inl err \<Rightarrow> (Inr (auth0_catch err), evs)
                  | Inr accessToken \<Rightarrow>
                      if \<not> truthy accessToken then
                        (Inr (TextResponse (js ''Missing access token in response'') 400), evs)
                      else auth0_userinfo co userinfoEndpoint oauthReqInfo accessToken evs)))"

definition auth0_exchange :: "env \<Rightarrow> collaborators \<Rightarrow> request \<Rightarrow> json \<Rightarrow> jsstring \<Rightarrow> outcome" where
  "auth0_exchange e co r oauthReqInfo code =
     auth0_token co
       \<lparr> tr_endpoint = js ''https://'' @ str_of_opt (AUTH0_DOMAIN e) @ js ''/oauth/token'',
            tr_grant_type = js ''authorization_code'',
            tr_client_id = str_of_opt (AUTH0_CLIENT_ID e),
            tr_client_secret = Some (str_of_opt (AUTH0_CLIENT_SECRET e)),
            tr_code = code,
            tr_redirect_uri = url_origin (url r) @ js ''/auth0/callback'',
            tr_code_verifier = prop_of oauthReqInfo (js ''codeVerifier'') \<rparr>
       (js ''https://'' @ str_of_opt (AUTH0_DOMAIN e) @ js ''/userinfo'')
       oauthReqInfo"

definition auth0_callback :: "env \<Rightarrow> collaborators \<Rightarrow> request \<Rightarrow> outcome" where
  "auth0_callback e co r =
     (case decode_state (req_query r (js ''state'')) of
        Inl err \<Rightarrow> (Inl err, [])
      | Inr oauthReqInfo \<Rightarrow>
          (case get_prop oauthReqInfo (js ''clientId'') of
             Inl err \<Rightarrow> (Inl err, [])
           | Inr clientId \<Rightarrow>
               if \<not> truthy clientId then (Inr (TextResponse (js ''Invalid state'') 400), [])
               else
                 (case req_query r (js ''code'') of
                    None \<Rightarrow> (Inr (TextResponse (js ''Missing authorization code'') 400), [])
                  | Some code \<Rightarrow>
                      if code = [] then
                        (Inr (TextResponse (js ''Missing authorization code'') 400), [])
                      else auth0_exchange e co r oauthReqInfo code)))"

text \<open>The \<open>catch\<close> block of the custom OAuth callback.\<close>

definition custom_catch :: "js_error \<Rightarrow> response" where
  "custom_catch error =
     (if includes_js (err_message error) (js ''Network connection lost'') \<or>
         includes_js (err_message error) (js ''fetch failed'') \<or>
         err_name error = js ''TypeError''
      then TextResponse (js ''Network connectivity issue. Please check your internet connection and try again. If using a proxy, ensure it allows connections to the custom OAuth server.'') 500
      else TextResponse (js ''Custom OAuth integration error: '' @ err_message error) 500)"

definition custom_finish :: "collaborators \<Rightarrow> json \<Rightarrow> jsval \<Rightarrow> json \<Rightarrow> event list \<Rightarrow> outcome" where
  "custom_finish co oauthReqInfo accessToken userData evs =
     (case custom_login userData of
        Inl err \<Rightarrow> (Inl err, evs)
      | Inr login \<Rightarrow>
          (let comp = \<lparr> props_accessToken = accessToken, props_login = login,
                        comp_request = oauthReqInfo,
                        comp_scope = prop_of oauthReqInfo (js ''scope''),
                        comp_userId = login \<rparr>
           in (Inr (RedirectResponse (completeAuthorization co comp) 302 []),
               evs @ [CompleteAuthorization comp])))"

definition custom_userinfo :: "collaborators \<Rightarrow> jsstring \<Rightarrow> json \<Rightarrow> jsval \<Rightarrow> event list \<Rightarrow> outcome" where
  "custom_userinfo co userinfoEndpoint oauthReqInfo accessToken evs =
     (let evs' = evs @ [UserinfoFetch userinfoEndpoint accessToken] in
      case userinfo_reply co userinfoEndpoint accessToken of
        Inl err \<Rightarrow> (Inr (custom_catch err), evs')
      | Inr userResponse \<Rightarrow>
          if \<not> resp_ok userResponse then
            (Inr (TextResponse (js ''Failed to fetch user info: '' @
                     show_nat (resp_status userResponse) @ js '' '' @
                     resp_statusText userResponse) 500), evs')
          else
            (case resp_json userResponse of
               Inl err \<Rightarrow> (Inr (custom_catch err), evs')
             | Inr userData \<Rightarrow> custom_finish co oauthReqInfo accessToken userData evs'))"

definition custom_token :: "collaborators \<Rightarrow> token_request \<Rightarrow> jsstring \<Rightarrow> json \<Rightarrow> outcome" where
  "custom_token co tokenRequestData userinfoEndpoint oauthReqInfo =
     (let evs = [TokenFetch tokenRequestData] in
      case token_reply co tokenRequestData of
        Inl err \<Rightarrow> (Inr (custom_catch err), evs)
      | Inr tokenResponse \<Rightarrow>
          if \<not> resp_ok tokenResponse then
            (Inr (TextResponse (js ''Failed to fetch access token: '' @
                     show_nat (resp_status tokenResponse) @ js '' '' @
                     resp_statusText tokenResponse) 500), evs)
          else
            (case resp_json tokenResponse of
               Inl err \<Rightarrow> (Inr (custom_catch err), evs)
             | Inr tokenData \<Rightarrow>
                 (case get_prop tokenData (js ''access_token'') of
                    Inl err \<Rightarrow> (Inr (custom_catch err), evs)
                  | Inr accessToken \<Rightarrow>
                      if \<not> truthy accessToken then
                        (Inr (TextResponse (js ''Missing access token in response'') 400), evs)
                      else custom_userinfo co userinfoEndpoint oauthReqInfo accessToken evs)))"

definition custom_exchange :: "env \<Rightarrow> collaborators \<Rightarrow> request \<Rightarrow> json \<Rightarrow> jsstring \<Rightarrow> outcome" where
  "custom_exchange e co r oauthReqInfo code =
     (let customOAuthUrl = or_str (CUSTOM_OAUTH_URL e) (js ''http://localhost:3000'') in
      custom_token co
        \<lparr> tr_endpoint = customOAuthUrl @ js ''/oauth/token'',
            tr_grant_type = js ''authorization_code'',
            tr_client_id = or_str (CUSTOM_OAUTH_CLIENT_ID e) (js ''demo-client''),
            tr_client_secret = None,
            tr_code = code,
            tr_redirect_uri = url_origin (url r) @ js ''/custom/callback'',
            tr_code_verifier = prop_of oauthReqInfo (js ''codeVerifier'') \<rparr>
        (customOAuthUrl @ js ''/api/userinfo'')
        oauthReqInfo)"

definition custom_callback :: "env \<Rightarrow> collaborators \<Rightarrow> request \<Rightarrow> outcome" where
  "custom_callback e co r =
     (case decode_state (req_query r (js ''state'')) of
        Inl err \<Rightarrow> (Inl err, [])
      | Inr oauthReqInfo \<Rightarrow>
          (case get_prop oauthReqInfo (js ''clientId'') of
             Inl err \<Rightarrow> (Inl err, [])
           | Inr clientId \<Rightarrow>
               if \<not> truthy clientId then (Inr (TextResponse (js ''Invalid state'') 400), [])
               else
                 (case req_query r (js ''code'') of
                    None \<Rightarrow> (Inr (TextResponse (js ''Missing authorization code'') 400), [])
                  | Some code \<Rightarrow>
                      if code = [] then
                        (Inr (TextResponse (js ''Missing authorization code'') 400), [])
                      else custom_exchange e co r oauthReqInfo code)))"

section \<open>Example inputs\<close>

text \<open>
  A state value as the gateway issues it, base64 of
  \<open>{"clientId":"c1","codeVerifier":"v"}\<close>, and the object it decodes to.
\<close>

definition sample_state :: jsstring where
  "sample_state = js ''eyJjbGllbnRJZCI6ImMxIiwiY29kZVZlcmlmaWVyIjoidiJ9''"

definition sample_info :: json where
  "sample_info = JObj [(js ''clientId'', JStr (js ''c1'')), (js ''codeVerifier'', JStr (js ''v''))]"

text \<open>Callback requests: complete, without \<open>code\<close>, without \<open>state\<close>, with a state that is
  not base64, and with a state that is base64 of \<open>not json\<close>.\<close>

definition callback_request :: "(jsstring \<times> jsstring) list \<Rightarrow> request" where
  "callback_request q = \<lparr> url = js ''https://gw.example/callback'', query = q \<rparr>"

definition req_complete :: request where
  "req_complete = callback_request [(js ''code'', js ''abc''), (js ''state'', sample_state)]"

definition req_no_code :: request where
  "req_no_code = callback_request [(js ''state'', sample_state)]"

definition req_no_state :: request where
  "req_no_state = callback_request [(js ''code'', js ''abc'')]"

definition req_bad_base64 :: request where
  "req_bad_base64 = callback_request [(js ''code'', js ''abc''), (js ''state'', js ''%%%'')]"

definition req_bad_json :: request where
  "req_bad_json = callback_request [(js ''code'', js ''abc''), (js ''state'', js ''bm90IGpzb24='')]"

text \<open>
  Upstream answers: a token endpoint that accepts and one that answers 401, and userinfo
  payloads for the login rules.
\<close>

definition reply :: "nat \<Rightarrow> string \<Rightarrow> jsstring \<Rightarrow> js_error + fetch_response" where
  "reply st txt b = Inr \<lparr> resp_status = st, resp_statusText = js txt, resp_body = b \<rparr>"

definition quoted :: "string \<Rightarrow> jsstring" where
  "quoted s = [34] @ js s @ [34]"

definition token_body :: jsstring where
  "token_body = js ''{'' @ quoted ''access_token'' @ js '':'' @ quoted ''tok'' @ js ''}''"

definition upstream_with :: "(js_error + fetch_response) \<Rightarrow> (js_error + fetch_response) \<Rightarrow> collaborators" where
  "upstream_with t u = \<lparr> token_reply = (\<lambda>tr. t), userinfo_reply = (\<lambda>ep tok. u),
     completeAuthorization = (\<lambda>c. js ''https://client.example/cb'') \<rparr>"

definition payload_sub_only :: jsstring where
  "payload_sub_only = js ''{'' @ quoted ''sub'' @ js '':'' @ quoted ''uuid-1'' @ js ''}''"

definition payload_email :: jsstring where
  "payload_email = js ''{'' @ quoted ''email'' @ js '':'' @ quoted ''john.doe@gmail.com'' @ js ''}''"



text \<open>The kinds of events, for counting the calls of a run.\<close>

definition is_token_fetch :: "event \<Rightarrow> bool" where
  "is_token_fetch ev = (case ev of TokenFetch tr \<Rightarrow> True | _ \<Rightarrow> False)"

definition is_userinfo_fetch :: "event \<Rightarrow> bool" where
  "is_userinfo_fetch ev = (case ev of UserinfoFetch ep tok \<Rightarrow> True | _ \<Rightarrow> False)"

text \<open>An environment with Google and Keycloak configured, and the token request the Google
  callback sends for \<open>req_complete\<close> in it.\<close>

definition sample_env :: env where
  "sample_env = no_env \<lparr> GOOGLE_CLIENT_ID := Some (js ''gid''),
     GOOGLE_CLIENT_SECRET := Some (js ''gsecret''),
     KEYCLOAK_DOMAIN := Some (js ''https://kc.example''),
     KEYCLOAK_REALM := Some (js ''demo''),
     KEYCLOAK_CLIENT_ID := Some (js ''kid'') \<rparr>"

definition google_sample_request :: token_request where
  "google_sample_request =
     \<lparr> tr_endpoint = js ''https://oauth2.googleapis.com/token'',
       tr_grant_type = js ''authorization_code'',
       tr_client_id = js ''gid'',
       tr_client_secret = Some (js ''gsecret''),
       tr_code = js ''abc'',
       tr_redirect_uri = js ''https://gw.example/google/callback'',
       tr_code_verifier = Some (JStr (js ''v'')) \<rparr>"





definition payload_email_empty :: jsstring where
  "payload_email_empty = js ''{'' @ quoted ''email'' @ js '':'' @ quoted [] @ js ''}''"


section \<open>Login derivation as the specification words it\<close>

text \<open>The local part of an address: the text before the first \<open>@\<close>.\<close>

definition local_part :: "jsstring \<Rightarrow> jsstring" where
  "local_part s = takeWhile (\<lambda>c. c \<noteq> 64) s"





section \<open>The state codec and the authorize redirects\<close>

subsection \<open>JSON.stringify on the state object\<close>

definition hex_lower :: "nat \<Rightarrow> 16 word" where
  "hex_lower n = of_nat (if n < 10 then 48 + n else 87 + n)"

text \<open>\<open>\uXXXX\<close> with lower-case digits.\<close>

definition unicode_escape :: "16 word \<Rightarrow> jsstring" where
  "unicode_escape c =
     (let n = unat c in
      [92, 117, hex_lower (n div 4096), hex_lower ((n div 256) mod 16),
       hex_lower ((n div 16) mod 16), hex_lower (n mod 16)])"

text \<open>
  One code unit inside a JSON string: the short escapes, \<open>\uXXXX\<close> for the other
  control characters and for a surrogate without its partner, the unit itself otherwise.
\<close>

definition quote_char :: "16 word \<Rightarrow> jsstring" where
  "quote_char c =
     (if c = 8 then [92, 98]
      else if c = 9 then [92, 116]
      else if c = 10 then [92, 110]
      else if c = 12 then [92, 102]
      else if c = 13 then [92, 114]
      else if c = 34 then [92, 34]
      else if c = 92 then [92, 92]
      else if unat c < 32 \<or> is_high_surrogate c \<or> is_low_surrogate c then unicode_escape c
      else [c])"

fun quote_chars :: "jsstring \<Rightarrow> jsstring" where
  "quote_chars [] = []"
| "quote_chars [c] = quote_char c"
| "quote_chars (c # d # r) =
     (if is_high_surrogate c \<and> is_low_surrogate d then c # d # quote_chars r
      else quote_char c @ quote_chars (d # r))"

definition QuoteJSONString :: "jsstring \<Rightarrow> jsstring" where
  "QuoteJSONString s = [34] @ quote_chars s @ [34]"

fun join_js :: "jsstring \<Rightarrow> jsstring list \<Rightarrow> jsstring" where
  "join_js sep [] = []"
| "join_js sep [x] = x"
| "join_js sep (x # y # r) = x @ sep @ join_js sep (y # r)"

text \<open>
  The values a property of the state object can hold: a string, an array of strings, or
  \<open>undefined\<close>, which \<open>JSON.stringify\<close> leaves out together with its key.
\<close>

datatype property = PStr jsstring | PStrs "jsstring list" | PUndefined

fun stringify_property :: "property \<Rightarrow> jsstring option" where
  "stringify_property (PStr s) = Some (QuoteJSONString s)"
| "stringify_property (PStrs xs) = Some ([91] @ join_js [44] (map QuoteJSONString xs) @ [93])"
| "stringify_property PUndefined = None"

definition stringify_member :: "jsstring \<times> property \<Rightarrow> jsstring option" where
  "stringify_member m =
     (case stringify_property (snd m) of
        None \<Rightarrow> None
      | Some t \<Rightarrow> Some (QuoteJSONString (fst m) @ [58] @ t))"

definition JSON_stringify :: "(jsstring \<times> property) list \<Rightarrow> jsstring" where
  "JSON_stringify obj = [123] @ join_js [44] (List.map_filter stringify_member obj) @ [125]"

text \<open>The JSON value that such an object stands for.\<close>

fun json_of_property :: "property \<Rightarrow> json option" where
  "json_of_property (PStr s) = Some (JStr s)"
| "json_of_property (PStrs xs) = Some (JArr (map JStr xs))"
| "json_of_property PUndefined = None"

definition json_of_member :: "jsstring \<times> property \<Rightarrow> (jsstring \<times> json) option" where
  "json_of_member m = (case json_of_property (snd m) of None \<Rightarrow> None | Some v \<Rightarrow> Some (fst m, v))"

definition json_of_object :: "(jsstring \<times> property) list \<Rightarrow> json" where
  "json_of_object obj = JObj (List.map_filter json_of_member obj)"

subsection \<open>The authorization request and its state\<close>

text \<open>
  \<open>AuthRequest\<close> of the OAuth provider library, as types.ts re-exports it: the
  caller's original request.
\<close>

record AuthRequest =
  responseType :: jsstring
  clientId :: jsstring
  redirectUri :: jsstring
  scope :: "jsstring list"
  state :: jsstring
  codeChallenge :: "jsstring option"
  codeChallengeMethod :: "jsstring option"

definition optional_property :: "jsstring option \<Rightarrow> property" where
  "optional_property v = (case v of None \<Rightarrow> PUndefined | Some s \<Rightarrow> PStr s)"

text \<open>\<open>{ ...oauthReqInfo, codeVerifier }\<close>.\<close>

definition state_object :: "AuthRequest \<Rightarrow> jsstring \<Rightarrow> (jsstring \<times> property) list" where
  "state_object oauthReqInfo codeVerifier =
     [(js ''responseType'', PStr (responseType oauthReqInfo)),
      (js ''clientId'', PStr (clientId oauthReqInfo)),
      (js ''redirectUri'', PStr (redirectUri oauthReqInfo)),
      (js ''scope'', PStrs (scope oauthReqInfo)),
      (js ''state'', PStr (state oauthReqInfo)),
      (js ''codeChallenge'', optional_property (codeChallenge oauthReqInfo)),
      (js ''codeChallengeMethod'', optional_property (codeChallengeMethod oauthReqInfo)),
      (js ''codeVerifier'', PStr codeVerifier)]"

text \<open>\<open>btoa(JSON.stringify({ ...oauthReqInfo, codeVerifier }))\<close>.\<close>

definition encode_state :: "AuthRequest \<Rightarrow> jsstring \<Rightarrow> js_error + jsstring" where
  "encode_state oauthReqInfo codeVerifier =
     btoa (JSON_stringify (state_object oauthReqInfo codeVerifier))"

subsection \<open>Building the upstream authorize URL\<close>

record UpstreamAuthorizeParams =
  p_upstream_url :: jsstring
  p_client_id :: jsstring
  p_scope :: jsstring
  p_redirect_uri :: jsstring
  p_state :: jsstring

text \<open>
  Modelled from the spec: \<open>getUpstreamAuthorizeUrl\<close> of oauth-utils.ts, which is not
  among the sources. Section 4.3, step 7: the upstream authorize URL is the base
  endpoint with client id, redirect URI, scope and state; the handlers' comments add
  that \<open>response_type\<close> is set by it, and they append the PKCE parameters themselves.
\<close>

definition getUpstreamAuthorizeUrl :: "UpstreamAuthorizeParams \<Rightarrow> authorize_url" where
  "getUpstreamAuthorizeUrl p =
     \<lparr> au_endpoint = p_upstream_url p,
       au_params = [(js ''client_id'', p_client_id p),
                    (js ''redirect_uri'', p_redirect_uri p),
                    (js ''scope'', p_scope p),
                    (js ''state'', p_state p),
                    (js ''response_type'', js ''code'')] \<rparr>"

text \<open>\<open>url + "&name=" + value\<close> on the URL kept as its parameters.\<close>

definition append_param :: "authorize_url \<Rightarrow> jsstring \<Rightarrow> jsstring \<Rightarrow> authorize_url" where
  "append_param au name v = au \<lparr> au_params := au_params au @ [(name, v)] \<rparr>"

definition Error :: "string \<Rightarrow> js_error" where
  "Error msg = JsError (js ''Error'') (js msg)"

text \<open>
  The four redirects. \<open>array\<close> is what \<open>crypto.getRandomValues\<close> put into the 32
  bytes of \<open>generateCodeVerifier\<close>.
\<close>

definition redirectToGoogle ::
  "request \<Rightarrow> AuthRequest \<Rightarrow> env \<Rightarrow> (jsstring \<times> jsstring) list \<Rightarrow> 8 word list
    \<Rightarrow> js_error + response" where
  "redirectToGoogle r oauthReqInfo e headers array =
     try_js (generateCodeVerifier array) (\<lambda>codeVerifier.
     try_js (generateCodeChallenge codeVerifier) (\<lambda>codeChallenge.
     try_js (encode_state oauthReqInfo codeVerifier) (\<lambda>st.
       Inr (AuthorizeRedirect
         (append_param
           (append_param
             (getUpstreamAuthorizeUrl
               \<lparr> p_upstream_url = js ''https://accounts.google.com/o/oauth2/v2/auth'',
                 p_client_id = str_of_opt (GOOGLE_CLIENT_ID e),
                 p_scope = js ''openid profile email https://www.googleapis.com/auth/gmail.send https://www.googleapis.com/auth/gmail.readonly'',
                 p_redirect_uri = url_origin (url r) @ js ''/google/callback'',
                 p_state = st \<rparr>)
             (js ''code_challenge'') codeChallenge)
           (js ''code_challenge_method'') (js ''S256''))
         headers))))"

definition redirectToCustomOAuth ::
  "request \<Rightarrow> AuthRequest \<Rightarrow> env \<Rightarrow> (jsstring \<times> jsstring) list \<Rightarrow> 8 word list
    \<Rightarrow> js_error + response" where
  "redirectToCustomOAuth r oauthReqInfo e headers array =
     try_js (generateCodeVerifier array) (\<lambda>codeVerifier.
     try_js (generateCodeChallenge codeVerifier) (\<lambda>codeChallenge.
     try_js (encode_state oauthReqInfo codeVerifier) (\<lambda>st.
     try_js (encodeURIComponent codeChallenge) (\<lambda>encoded.
       Inr (AuthorizeRedirect
         (append_param
           (append_param
             (getUpstreamAuthorizeUrl
               \<lparr> p_upstream_url =
                   or_str (CUSTOM_OAUTH_URL e) (js ''http://localhost:3000'') @
                   js ''/oauth/authorize'',
                 p_client_id = or_str (CUSTOM_OAUTH_CLIENT_ID e) (js ''demo-client''),
                 p_scope = js ''read write'',
                 p_redirect_uri = url_origin (url r) @ js ''/custom/callback'',
                 p_state = st \<rparr>)
             (js ''code_challenge'') codeChallenge)
           (js ''code_challenge_method'') (js ''S256''))
         headers)))))"

definition redirectToKeycloak ::
  "request \<Rightarrow> AuthRequest \<Rightarrow> env \<Rightarrow> (jsstring \<times> jsstring) list \<Rightarrow> 8 word list
    \<Rightarrow> js_error + response" where
  "redirectToKeycloak r oauthReqInfo e headers array =
     try_js (generateCodeVerifier array) (\<lambda>codeVerifier.
     try_js (generateCodeChallenge codeVerifier) (\<lambda>codeChallenge.
     try_js (encode_state oauthReqInfo codeVerifier) (\<lambda>st.
       if \<not> truthy_str (KEYCLOAK_DOMAIN e)
         then Inl (Error ''KEYCLOAK_DOMAIN environment variable is required'')
       else if \<not> truthy_str (KEYCLOAK_REALM e)
         then Inl (Error ''KEYCLOAK_REALM environment variable is required'')
       else
         try_js (encodeURIComponent (str_of_opt (KEYCLOAK_REALM e))) (\<lambda>encodedRealm.
         try_js (encodeURIComponent codeChallenge) (\<lambda>encoded.
           Inr (AuthorizeRedirect
             (append_param
               (append_param
                 (getUpstreamAuthorizeUrl
                   \<lparr> p_upstream_url =
                       str_of_opt (KEYCLOAK_DOMAIN e) @ js ''/realms/'' @ encodedRealm @
                       js ''/protocol/openid-connect/auth'',
                     p_client_id = str_of_opt (KEYCLOAK_CLIENT_ID e),
                     p_scope = js ''openid profile email'',
                     p_redirect_uri = url_origin (url r) @ js ''/keycloak/callback'',
                     p_state = st \<rparr>)
                 (js ''code_challenge'') codeChallenge)
               (js ''code_challenge_method'') (js ''S256''))
             headers))))))"

definition redirectToAuth0 ::
  "request \<Rightarrow> AuthRequest \<Rightarrow> env \<Rightarrow> (jsstring \<times> jsstring) list \<Rightarrow> 8 word list
    \<Rightarrow> js_error + response" where
  "redirectToAuth0 r oauthReqInfo e headers array =
     try_js (generateCodeVerifier array) (\<lambda>codeVerifier.
     try_js (generateCodeChallenge codeVerifier) (\<lambda>codeChallenge.
     try_js (encode_state oauthReqInfo codeVerifier) (\<lambda>st.
       if \<not> truthy_str (AUTH0_DOMAIN e)
         then Inl (Error ''AUTH0_DOMAIN environment variable is required'')
       else
         try_js (encodeURIComponent codeChallenge) (\<lambda>encoded.
           (let finalAuthUrl =
              append_param
                (append_param
                  (getUpstreamAuthorizeUrl
                    \<lparr> p_upstream_url = js ''https://'' @ str_of_opt (AUTH0_DOMAIN e) @ js ''/authorize'',
                      p_client_id = str_of_opt (AUTH0_CLIENT_ID e),
                      p_scope = js ''openid profile email'',
                      p_redirect_uri = url_origin (url r) @ js ''/auth0/callback'',
                      p_state = st \<rparr>)
                  (js ''code_challenge'') codeChallenge)
                (js ''code_challenge_method'') (js ''S256'')
            in if truthy_str (AUTH0_AUDIENCE e) then
                 try_js (encodeURIComponent (str_of_opt (AUTH0_AUDIENCE e))) (\<lambda>aud.
                   Inr (AuthorizeRedirect
                     (append_param finalAuthUrl (js ''audience'') (str_of_opt (AUTH0_AUDIENCE e)))
                     headers))
               else Inr (AuthorizeRedirect finalAuthUrl headers))))))"

text \<open>
  What the upstream can read off an authorize redirect: the \<open>codeVerifier\<close> inside its
  \<open>state\<close> parameter, decoded the way the callback decodes it.
\<close>

definition verifier_in_state :: "response \<Rightarrow> js_error + jsval" where
  "verifier_in_state resp =
     (case resp of
        AuthorizeRedirect au headers \<Rightarrow>
          try_js (decode_state (map_of (au_params au) (js ''state'')))
            (\<lambda>info. get_prop info (js ''codeVerifier''))
      | _ \<Rightarrow> Inr None)"

definition redirect_param :: "response \<Rightarrow> jsstring \<Rightarrow> jsstring option" where
  "redirect_param resp name =
     (case resp of
        AuthorizeRedirect au headers \<Rightarrow> map_of (au_params au) name
      | _ \<Rightarrow> None)"

text \<open>An authorization request and the 32 random bytes for the examples.\<close>

definition sample_request :: AuthRequest where
  "sample_request =
     \<lparr> responseType = js ''code'', clientId = js ''c1'',
       redirectUri = js ''https://client.example/cb'', scope = [js ''read''],
       state = js ''xyz'', codeChallenge = None, codeChallengeMethod = None \<rparr>"

definition sample_random :: "8 word list" where
  "sample_random = replicate 32 0"

definition sample_verifier :: jsstring where
  "sample_verifier = js ''AAAAAAAAAAAAAAAAAAAAAAAAAAAAAAAAAAAAAAAAAAA''"

text \<open>The same request with a check mark (U+2713) as the client's state.\<close>

definition unicode_request :: AuthRequest where
  "unicode_request = sample_request \<lparr> state := [0x2713] \<rparr>"


text \<open>The six-bit groups of a byte sequence, for reasoning about \<open>btoa\<close> and \<open>atob\<close>.\<close>

fun sextets :: "nat list \<Rightarrow> nat list" where
  "sextets [] = []"
| "sextets [a] = [a div 4, (a mod 4) * 16]"
| "sextets [a, b] = [a div 4, (a mod 4) * 16 + b div 16, (b mod 16) * 4]"
| "sextets (a # b # c # rest) =
     a div 4 # ((a mod 4) * 16 + b div 16) # ((b mod 16) * 4 + c div 64) # c mod 64 # sextets rest"

fun pad_count :: "nat list \<Rightarrow> nat" where
  "pad_count [] = 0"
| "pad_count [a] = 2"
| "pad_count [a, b] = 1"
| "pad_count (a # b # c # rest) = pad_count rest"

text \<open>
  How deep \<open>parse_value\<close> must be allowed to go for the text of a property, and the
  properties that \<open>JSON.stringify\<close> writes.
\<close>

fun prop_fuel :: "property \<Rightarrow> nat" where
  "prop_fuel (PStr s) = 1"
| "prop_fuel (PStrs xs) = length xs + 2"
| "prop_fuel PUndefined = 0"

definition defined_member :: "jsstring \<times> property \<Rightarrow> bool" where
  "defined_member m = (snd m \<noteq> PUndefined)"

text \<open>The state that \<open>sample_request\<close> and \<open>sample_verifier\<close> encode to.\<close>

definition sample_encoded :: jsstring where
  "sample_encoded = js ''eyJyZXNwb25zZVR5cGUiOiJjb2RlIiwiY2xpZW50SWQiOiJjMSIsInJlZGlyZWN0VXJpIjoiaHR0cHM6Ly9jbGllbnQuZXhhbXBsZS9jYiIsInNjb3BlIjpbInJlYWQiXSwic3RhdGUiOiJ4eXoiLCJjb2RlVmVyaWZpZXIiOiJBQUFBQUFBQUFBQUFBQUFBQUFBQUFBQUFBQUFBQUFBQUFBQUFBQUFBQUFBIn0=''"

text \<open>The verifier that \<open>generateCodeVerifier\<close> makes of its random bytes.\<close>

definition verifier_of :: "8 word list \<Rightarrow> jsstring" where
  "verifier_of array = base64url_nopad (map unat array)"

text \<open>The authorize URLs of the four redirects, for a state and a challenge.\<close>

definition pkce_url :: "UpstreamAuthorizeParams \<Rightarrow> jsstring \<Rightarrow> authorize_url" where
  "pkce_url p challenge =
     append_param
       (append_param (getUpstreamAuthorizeUrl p) (js ''code_challenge'') challenge)
       (js ''code_challenge_method'') (js ''S256'')"

text \<open>
  What a successful redirect of any of the four handlers looks like: the authorize URL
  for the encoded state and the challenge of the verifier, with an \<open>audience\<close>
  parameter after it for Auth0 when one is configured.
\<close>

definition pkce_redirect :: "AuthRequest \<Rightarrow> jsstring \<Rightarrow> response \<Rightarrow> bool" where
  "pkce_redirect q v resp =
     (\<exists>st p hs. encode_state q v = Inr st \<and> p_state p = st \<and>
        (resp = AuthorizeRedirect (pkce_url p (deriveChallenge_spec v)) hs \<or>
         (\<exists>a. resp = AuthorizeRedirect
            (append_param (pkce_url p (deriveChallenge_spec v)) (js ''audience'') a) hs)))"

section \<open>Properties of the router\<close>

lemmas router_defs = root_authorize_def detect_providers_def no_env_def truthy_str_def
  queryString_of_def root_callback_def root_callback_provider_def req_query_def
  url_origin_def url_search_def authRouter_def authRouter_sentry_def mounted_providers_def
  provider_routes_def js_def

text \<open>
  In index\_sentry.ts only the provider's own path reaches a provider's callback, and
  \<open>GET /callback\<close> is not routed at all.
\<close>

lemma authRouter_sentry_callback_by_path:
  "dispatch authRouter_sentry GET (provider_path p @ js ''/callback'') = Some (ProviderCallback p)"
  by (cases p) (simp_all add: router_defs)

lemma authRouter_sentry_no_generic_callback:
  "dispatch authRouter_sentry m (js ''/callback'') = None"
  by (cases m) (simp_all add: router_defs)

text \<open>
  C1. The claim: the HTTP surface has no shared callback endpoint, and a callback is
  dispatched to its provider by URL path alone, never by its query parameters.
  The router of index.ts does register \<open>GET /callback\<close>; with GitHub and Google both
  configured, two requests to that same path are sent to different providers, and the
  only difference between them is the \<open>authuser\<close> query parameter.
\<close>

theorem index_router_generic_callback_sniffs_payload:
  "dispatch authRouter GET (js ''/callback'') = Some RootCallback \<and>
   root_callback (no_env\<lparr>GITHUB_CLIENT_ID := Some (js ''a''), GOOGLE_CLIENT_ID := Some (js ''b'')\<rparr>)
     \<lparr>url = js ''https://gw.example/callback?code=abc&authuser=0'',
      query = [(js ''code'', js ''abc''), (js ''authuser'', js ''0'')]\<rparr>
     = RedirectResponse (js ''https://gw.example/google/callback?code=abc&authuser=0'') 302 [] \<and>
   root_callback (no_env\<lparr>GITHUB_CLIENT_ID := Some (js ''a''), GOOGLE_CLIENT_ID := Some (js ''b'')\<rparr>)
     \<lparr>url = js ''https://gw.example/callback?code=abc'',
      query = [(js ''code'', js ''abc'')]\<rparr>
     = RedirectResponse (js ''https://gw.example/github/callback?code=abc'') 302 []"
  by (simp add: router_defs)

text \<open>
  When the query string holds no further \<open>?\<close>, the single-provider redirect keeps it
  as it is.
\<close>

lemma includes_js_mem: "includes_js u [c] = (c \<in> set u)"
  by (induction u) auto

lemma split_js_no_sep: "sep \<notin> set q \<Longrightarrow> split_js sep q = [q]"
  by (induction q) auto

lemma split_js_first_sep:
  "sep \<notin> set b \<Longrightarrow> split_js sep (b @ sep # q) = b # split_js sep q"
  by (induction b) auto

lemma queryString_of_plain:
  assumes "of_nat (of_char CHR ''?'') \<notin> set b" and "of_nat (of_char CHR ''?'') \<notin> set q"
  shows "queryString_of (b @ of_nat (of_char CHR ''?'') # q) = Some q"
  using assms
  by (simp add: queryString_of_def js_def includes_js_mem split_js_first_sep split_js_no_sep
      del: of_char_Char)

lemma root_authorize_single_plain:
  assumes "detect_providers e = [(name, path)]"
    and "of_nat (of_char CHR ''?'') \<notin> set b" and "of_nat (of_char CHR ''?'') \<notin> set q"
    and "q \<noteq> []"
  shows "root_authorize e \<lparr>url = b @ of_nat (of_char CHR ''?'') # q, query = qs\<rparr>
     = RedirectResponse (path @ js ''/authorize'' @ js ''?'' @ q) 302 []"
  using assms(1,4) queryString_of_plain [OF assms(2,3)]
  by (simp add: root_authorize_def truthy_str_def)

text \<open>
  C8. The claim: with exactly one provider configured, \<open>GET /authorize\<close> redirects to
  that provider's \<open>/authorize\<close> with the original query string preserved verbatim.
  With only \<open>GITHUB_CLIENT_ID\<close> set and a query string that itself contains a \<open>?\<close>
  (inside the \<open>redirect_uri\<close> value), the handler keeps only the text between the first
  and the second \<open>?\<close>: the redirect loses \<open>?next=1\<close>.
\<close>

theorem root_authorize_truncates_query_at_second_question_mark:
  "root_authorize (no_env\<lparr>GITHUB_CLIENT_ID := Some (js ''abc'')\<rparr>)
     \<lparr>url = js ''https://gw.example/authorize?client_id=x&redirect_uri=https://app.example/cb?next=1'',
      query = [(js ''client_id'', js ''x''), (js ''redirect_uri'', js ''https://app.example/cb?next=1'')]\<rparr>
   = RedirectResponse (js ''/github/authorize?client_id=x&redirect_uri=https://app.example/cb'') 302 [] \<and>
   js ''/github/authorize?client_id=x&redirect_uri=https://app.example/cb''
     \<noteq> js ''/github/authorize?client_id=x&redirect_uri=https://app.example/cb?next=1''"
  by (simp add: router_defs)

section \<open>PKCE challenge\<close>

lemma unat_b64_char: "n < 64 \<Longrightarrow> unat (b64_char n) =
  (if n < 26 then n + 65 else if n < 52 then n + 71 else if n < 62 then n - 4
      else if n = 62 then 43 else 47)"
  by (simp add: b64_char_def unat_of_nat)

lemma unat_b64url_char: "n < 64 \<Longrightarrow> unat (b64url_char n) =
  (if n < 26 then n + 65 else if n < 52 then n + 71 else if n < 62 then n - 4
      else if n = 62 then 45 else 95)"
  by (simp add: b64url_char_def unat_of_nat)

lemma url_safe_Cons: "url_safe (c # s) = (if url_safe_char c = 61 then url_safe s else url_safe_char c # url_safe s)"
  by (simp add: url_safe_def url_safe_char_def)

lemma url_safe_Nil: "url_safe [] = []"
  by (simp add: url_safe_def)

lemma url_safe_b64_char:
  assumes "n < 64"
  shows "url_safe_char (b64_char n) = b64url_char n" and "b64url_char n \<noteq> 61"
    and "b64url_char n \<noteq> 43" and "b64url_char n \<noteq> 47"
  using assms
  by (auto simp add: url_safe_char_def word_unat_eq_iff unat_b64_char unat_b64url_char)

lemma url_safe_pad: "url_safe_char b64_pad = 61"
  by (simp add: url_safe_char_def b64_pad_def)

lemma sextet_bounds:
  fixes a b c :: nat
  assumes "a < 256" "b < 256" "c < 256"
  shows "a div 4 < 64" "(a mod 4) * 16 < 64" "(a mod 4) * 16 + b div 16 < 64"
    "(b mod 16) * 4 < 64" "(b mod 16) * 4 + c div 64 < 64" "c mod 64 < 64"
proof -
  have a4: "a mod 4 \<le> 3" and b16: "b mod 16 \<le> 15" by simp_all
  show a1: "a div 4 < 64" using assms(1) by (simp add: less_mult_imp_div_less)
  have b1: "b div 16 \<le> 15"
    using assms(2) less_mult_imp_div_less [of b 16 16] by simp
  have c1: "c div 64 \<le> 3"
    using assms(3) less_mult_imp_div_less [of c 4 64] by simp
  from a4 have a5: "(a mod 4) * 16 \<le> 48" by simp
  from b16 have b5: "(b mod 16) * 4 \<le> 60" by simp
  from a5 show "(a mod 4) * 16 < 64" by simp
  from a5 b1 show "(a mod 4) * 16 + b div 16 < 64" by simp
  from b5 show "(b mod 16) * 4 < 64" by simp
  from b5 c1 show "(b mod 16) * 4 + c div 64 < 64" by simp
  show "c mod 64 < 64" by simp
qed

lemma url_safe_sextet:
  "n < 64 \<Longrightarrow> url_safe (b64_char n # s) = b64url_char n # url_safe s"
  by (simp add: url_safe_Cons url_safe_b64_char)

lemma url_safe_padding: "url_safe (b64_pad # s) = url_safe s"
  by (simp add: url_safe_Cons url_safe_pad)

lemma url_safe_b64_encode:
  "list_all (\<lambda>a. a < 256) xs \<Longrightarrow> url_safe (b64_encode xs) = base64url_nopad xs"
proof (induction xs rule: b64_encode.induct)
  case 1
  show ?case by (simp add: url_safe_Nil)
next
  case (2 a)
  then have a: "a < 256" by simp
  show ?case
    unfolding b64_encode.simps base64url_nopad.simps
    by (simp only: url_safe_sextet [OF sextet_bounds(1) [OF a a a]]
        url_safe_sextet [OF sextet_bounds(2) [OF a a a]] url_safe_padding url_safe_Nil)
next
  case (3 a b)
  then have a: "a < 256" and b: "b < 256" by simp_all
  show ?case
    unfolding b64_encode.simps base64url_nopad.simps
    by (simp only: url_safe_sextet [OF sextet_bounds(1) [OF a b b]]
        url_safe_sextet [OF sextet_bounds(3) [OF a b b]]
        url_safe_sextet [OF sextet_bounds(4) [OF a b b]] url_safe_padding url_safe_Nil)
next
  case (4 a b c rest)
  then have a: "a < 256" and b: "b < 256" and c: "c < 256"
    and r: "list_all (\<lambda>a. a < 256) rest" by simp_all
  show ?case
    unfolding b64_encode.simps base64url_nopad.simps
    by (simp only: url_safe_sextet [OF sextet_bounds(1) [OF a b c]]
        url_safe_sextet [OF sextet_bounds(3) [OF a b c]]
        url_safe_sextet [OF sextet_bounds(5) [OF a b c]]
        url_safe_sextet [OF sextet_bounds(6) [OF a b c]] "4.IH" [OF r])
qed

lemma base64url_nopad_alphabet:
  "list_all (\<lambda>a. a < 256) xs \<Longrightarrow>
     list_all (\<lambda>c. c \<noteq> 61 \<and> c \<noteq> 43 \<and> c \<noteq> 47) (base64url_nopad xs)"
proof (induction xs rule: base64url_nopad.induct)
  case 1
  show ?case by simp
next
  case (2 a)
  then have a: "a < 256" by simp
  show ?case
    unfolding base64url_nopad.simps list.pred_inject
    using url_safe_b64_char(2-4) [OF sextet_bounds(1) [OF a a a]]
      url_safe_b64_char(2-4) [OF sextet_bounds(2) [OF a a a]]
    by simp
next
  case (3 a b)
  then have a: "a < 256" and b: "b < 256" by simp_all
  show ?case
    unfolding base64url_nopad.simps list.pred_inject
    using url_safe_b64_char(2-4) [OF sextet_bounds(1) [OF a b b]]
      url_safe_b64_char(2-4) [OF sextet_bounds(3) [OF a b b]]
      url_safe_b64_char(2-4) [OF sextet_bounds(4) [OF a b b]]
    by simp
next
  case (4 a b c rest)
  then have a: "a < 256" and b: "b < 256" and c: "c < 256"
    and r: "list_all (\<lambda>a. a < 256) rest" by simp_all
  show ?case
    unfolding base64url_nopad.simps list.pred_inject
    using url_safe_b64_char(2-4) [OF sextet_bounds(1) [OF a b c]]
      url_safe_b64_char(2-4) [OF sextet_bounds(3) [OF a b c]]
      url_safe_b64_char(2-4) [OF sextet_bounds(5) [OF a b c]]
      url_safe_b64_char(2-4) [OF sextet_bounds(6) [OF a b c]] "4.IH" [OF r]
    by simp
qed

lemma unat_ucast_byte: "unat (ucast (b :: 8 word) :: 16 word) = unat b"
proof -
  have "unat b < 2 ^ 8" using unsigned_less [of b, where 'a = nat] by simp
  then have "unat b < 2 ^ 16" by simp
  then show ?thesis by (simp add: unsigned_ucast_eq take_bit_nat_eq_self)
qed

lemma unat_byte_le: "unat (b :: 8 word) \<le> 255"
  using unsigned_less [of b, where 'a = nat] by simp

lemma fromCharCode_latin1: "list_all (\<lambda>c. unat c \<le> 255) (String_fromCharCode bs)"
proof -
  have "unat (ucast b :: 16 word) \<le> 255" for b :: "8 word"
    by (simp add: unat_ucast_byte unat_byte_le)
  then show ?thesis by (simp add: String_fromCharCode_def list_all_iff)
qed

lemma unat_fromCharCode: "map unat (String_fromCharCode bs) = map unat bs"
  by (simp add: String_fromCharCode_def unat_ucast_byte)

lemma bytes_lt_256: "list_all (\<lambda>a. a < 256) (map unat (bs :: 8 word list))"
proof -
  have "unat b < 256" for b :: "8 word" using unsigned_less [of b, where 'a = nat] by simp
  then show ?thesis by (simp add: list_all_iff)
qed

lemma btoa_bytes: "btoa (String_fromCharCode bs) = Inr (b64_encode (map unat bs))"
  by (simp add: btoa_def fromCharCode_latin1 unat_fromCharCode)


text \<open>
  C4. \<open>generateCodeChallenge\<close> depends on its verifier argument only (it takes no
  randomness, clock or environment): it always returns, its result is the SHA-256 digest
  of the verifier's UTF-8 bytes in base64url without padding, as the specification's
  \<open>deriveChallenge\<close> words it, and the result has no \<open>=\<close>, \<open>+\<close> or \<open>/\<close>.
\<close>

theorem generateCodeChallenge_is_base64url_sha256:
  "generateCodeChallenge verifier
     = Inr (base64url_nopad (map unat (sha256 (TextEncoder_encode verifier)))) \<and>
   generateCodeChallenge verifier = Inr (deriveChallenge_spec verifier) \<and>
   list_all (\<lambda>c. c \<noteq> of_nat (of_char CHR ''='') \<and> c \<noteq> of_nat (of_char CHR ''+'')
       \<and> c \<noteq> of_nat (of_char CHR ''/'')) (deriveChallenge_spec verifier)"
  using base64url_nopad_alphabet [OF bytes_lt_256, of "sha256 (TextEncoder_encode verifier)"]
  by (simp add: generateCodeChallenge_def deriveChallenge_spec_def btoa_bytes
      url_safe_b64_encode bytes_lt_256)


section \<open>Callback handlers: the state and code checks\<close>

lemmas callback_defs = google_callback_def keycloak_callback_def auth0_callback_def
  custom_callback_def

text \<open>
  A state that cannot be decoded leaves every callback handler as the exception that
  \<open>atob\<close> or \<open>JSON.parse\<close> threw: none of them catches it.
\<close>

lemma callback_decode_failure:
  assumes "decode_state (req_query r (js ''state'')) = Inl err"
  shows "google_callback e co r = (Inl err, [])"
    and "keycloak_callback e co r = (Inl err, [])"
    and "auth0_callback e co r = (Inl err, [])"
    and "custom_callback e co r = (Inl err, [])"
  using assms by (simp_all add: callback_defs)

lemma decode_state_samples:
  "decode_state (req_query req_no_state (js ''state'')) = Inl InvalidCharacterError"
  "decode_state (req_query req_bad_base64 (js ''state'')) = Inl InvalidCharacterError"
  "decode_state (req_query req_bad_json (js ''state'')) = Inl SyntaxError"
  "decode_state (req_query req_no_code (js ''state'')) = Inr sample_info"
  "decode_state (req_query req_complete (js ''state'')) = Inr sample_info"
  by code_simp+

lemma sample_info_clientId:
  "get_prop sample_info (js ''clientId'') = Inr (Some (JStr (js ''c1'')))"
  "truthy (Some (JStr (js ''c1'')))"
  by code_simp+

text \<open>
  C5. The claim: a callback whose state is missing or undecodable is answered with a
  400 and plain text, not with an uncontrolled exception.
  In the handlers \<open>JSON.parse(atob(state))\<close> stands outside every \<open>try\<close>: without a
  state, with a state that is not base64, and with a state that is base64 of text that
  is not JSON, the handler ends in the thrown error, whatever the environment and the
  upstream are. The 400 \<open>Invalid state\<close> is only reached by a state that decodes.
\<close>

theorem callback_undecodable_state_throws:
  "google_callback e co req_no_state = (Inl InvalidCharacterError, []) \<and>
   keycloak_callback e co req_no_state = (Inl InvalidCharacterError, []) \<and>
   google_callback e co req_bad_base64 = (Inl InvalidCharacterError, []) \<and>
   keycloak_callback e co req_bad_base64 = (Inl InvalidCharacterError, []) \<and>
   google_callback e co req_bad_json = (Inl SyntaxError, []) \<and>
   keycloak_callback e co req_bad_json = (Inl SyntaxError, [])"
  by (simp add: callback_decode_failure decode_state_samples)

text \<open>
  C6. A callback whose state decodes to a request with a client id, and whose \<open>code\<close>
  parameter is absent (or empty), is answered with a 400 that names the missing
  authorization code, and no outbound call is made: the list of events is empty.
\<close>

theorem callback_without_code:
  assumes "decode_state (req_query r (js ''state'')) = Inr oauthReqInfo"
    and "get_prop oauthReqInfo (js ''clientId'') = Inr cid"
    and "truthy cid"
    and "\<not> truthy_str (req_query r (js ''code''))"
  shows "google_callback e co r =
           (Inr (TextResponse (js ''Missing authorization code. Please try again.'') 400), []) \<and>
         keycloak_callback e co r =
           (Inr (TextResponse (js ''Missing authorization code'') 400), []) \<and>
         auth0_callback e co r =
           (Inr (TextResponse (js ''Missing authorization code'') 400), []) \<and>
         custom_callback e co r =
           (Inr (TextResponse (js ''Missing authorization code'') 400), [])"
  using assms by (auto simp add: callback_defs truthy_str_def split: option.splits)

theorem callback_without_code_witness:
  "decode_state (req_query req_no_code (js ''state'')) = Inr sample_info \<and>
   req_query req_no_code (js ''code'') = None \<and>
   google_callback no_env (upstream_with (reply 200 ''OK'' token_body) (reply 200 ''OK'' payload_email))
       req_no_code =
     (Inr (TextResponse (js ''Missing authorization code. Please try again.'') 400), []) \<and>
   keycloak_callback no_env (upstream_with (reply 200 ''OK'' token_body) (reply 200 ''OK'' payload_email))
       req_no_code =
     (Inr (TextResponse (js ''Missing authorization code'') 400), [])"
proof -
  have c: "\<not> truthy_str (req_query req_no_code (js ''code''))"
    and n: "req_query req_no_code (js ''code'') = None"
    by code_simp+
  from callback_without_code [OF decode_state_samples(4) sample_info_clientId c] n
    decode_state_samples(4)
  show ?thesis by simp
qed


section \<open>Callback handlers: the token exchange\<close>

text \<open>
  Every handler that gets past the state and code checks runs its token stage on one
  token request; before that it has made no call.
\<close>

lemma google_callback_cases:
  "snd (google_callback e co r) = [] \<or>
   (\<exists>trd info. google_callback e co r = google_token co trd info)"
  by (auto simp add: google_callback_def google_exchange_def split: sum.splits option.splits)

lemma keycloak_callback_cases:
  "snd (keycloak_callback e co r) = [] \<or>
   (\<exists>trd uep info. keycloak_callback e co r = keycloak_token co trd uep info)"
  by (auto simp add: keycloak_callback_def keycloak_exchange_def
      split: sum.splits option.splits)

lemma auth0_callback_cases:
  "snd (auth0_callback e co r) = [] \<or>
   (\<exists>trd uep info. auth0_callback e co r = auth0_token co trd uep info)"
  by (auto simp add: auth0_callback_def auth0_exchange_def split: sum.splits option.splits)

lemma custom_callback_cases:
  "snd (custom_callback e co r) = [] \<or>
   (\<exists>trd uep info. custom_callback e co r = custom_token co trd uep info)"
  by (auto simp add: custom_callback_def custom_exchange_def Let_def
      split: sum.splits option.splits)

text \<open>After the token fetch, no stage makes another one.\<close>

lemma google_finish_tokens:
  "filter is_token_fetch (snd (google_finish co info tok ud evs)) = filter is_token_fetch evs"
  by (simp add: google_finish_def Let_def is_token_fetch_def split: sum.splits)

lemma google_userinfo_tokens:
  "filter is_token_fetch (snd (google_userinfo co info tok evs))
     = filter is_token_fetch evs"
  by (simp add: google_userinfo_def Let_def google_finish_tokens is_token_fetch_def
      split: sum.splits)

lemma google_token_tokens:
  "filter is_token_fetch (snd (google_token co trd info)) = [TokenFetch trd]"
  by (simp add: google_token_def Let_def google_userinfo_tokens is_token_fetch_def
      split: sum.splits)

lemma google_token_events:
  assumes "TokenFetch tr \<in> set (snd (google_token co trd info))"
  shows "tr = trd"
proof -
  from assms have "TokenFetch tr \<in> set (filter is_token_fetch (snd (google_token co trd info)))"
    by (simp add: is_token_fetch_def)
  then show ?thesis by (simp add: google_token_tokens)
qed

lemma google_token_rejected:
  assumes "token_reply co trd = Inr resp" and "\<not> resp_ok resp"
  shows "google_token co trd info =
    (Inr (TextResponse (js ''Failed to fetch access token: '' @ show_nat (resp_status resp)) 500), [TokenFetch trd])"
  using assms by (simp add: google_token_def Let_def)

lemma google_callback_rejected:
  assumes "TokenFetch tr \<in> set (snd (google_callback e co r))"
    and "token_reply co tr = Inr resp" and "\<not> resp_ok resp"
  shows "google_callback e co r =
    (Inr (TextResponse (js ''Failed to fetch access token: '' @ show_nat (resp_status resp)) 500), [TokenFetch tr])"
proof -
  from assms(1) google_callback_cases [of e co r]
  obtain trd info where c: "google_callback e co r = google_token co trd info"
    by auto
  with assms(1) have "tr = trd" by (simp add: google_token_events)
  with c google_token_rejected [OF assms(2,3)] show ?thesis by simp
qed

lemma keycloak_finish_tokens:
  "filter is_token_fetch (snd (keycloak_finish co info tok ud evs)) = filter is_token_fetch evs"
  by (simp add: keycloak_finish_def Let_def is_token_fetch_def split: sum.splits)

lemma keycloak_userinfo_tokens:
  "filter is_token_fetch (snd (keycloak_userinfo co uep info tok evs))
     = filter is_token_fetch evs"
  by (simp add: keycloak_userinfo_def Let_def keycloak_finish_tokens is_token_fetch_def
      split: sum.splits)

lemma keycloak_token_tokens:
  "filter is_token_fetch (snd (keycloak_token co trd uep info)) = [TokenFetch trd]"
  by (simp add: keycloak_token_def Let_def keycloak_userinfo_tokens is_token_fetch_def
      split: sum.splits)

lemma keycloak_token_events:
  assumes "TokenFetch tr \<in> set (snd (keycloak_token co trd uep info))"
  shows "tr = trd"
proof -
  from assms have "TokenFetch tr \<in> set (filter is_token_fetch (snd (keycloak_token co trd uep info)))"
    by (simp add: is_token_fetch_def)
  then show ?thesis by (simp add: keycloak_token_tokens)
qed

lemma keycloak_token_rejected:
  assumes "token_reply co trd = Inr resp" and "\<not> resp_ok resp"
  shows "keycloak_token co trd uep info =
    (Inr (TextResponse (js ''Failed to fetch access token: '' @ show_nat (resp_status resp) @
            js '' '' @ resp_statusText resp) 500), [TokenFetch trd])"
  using assms by (simp add: keycloak_token_def Let_def)

lemma keycloak_callback_rejected:
  assumes "TokenFetch tr \<in> set (snd (keycloak_callback e co r))"
    and "token_reply co tr = Inr resp" and "\<not> resp_ok resp"
  shows "keycloak_callback e co r =
    (Inr (TextResponse (js ''Failed to fetch access token: '' @ show_nat (resp_status resp) @
            js '' '' @ resp_statusText resp) 500), [TokenFetch tr])"
proof -
  from assms(1) keycloak_callback_cases [of e co r]
  obtain trd uep info where c: "keycloak_callback e co r = keycloak_token co trd uep info"
    by auto
  with assms(1) have "tr = trd" by (simp add: keycloak_token_events)
  with c keycloak_token_rejected [OF assms(2,3)] show ?thesis by simp
qed

lemma auth0_finish_tokens:
  "filter is_token_fetch (snd (auth0_finish co info tok ud evs)) = filter is_token_fetch evs"
  by (simp add: auth0_finish_def Let_def is_token_fetch_def split: sum.splits)

lemma auth0_userinfo_tokens:
  "filter is_token_fetch (snd (auth0_userinfo co uep info tok evs))
     = filter is_token_fetch evs"
  by (simp add: auth0_userinfo_def Let_def auth0_finish_tokens is_token_fetch_def
      split: sum.splits)

lemma auth0_token_tokens:
  "filter is_token_fetch (snd (auth0_token co trd uep info)) = [TokenFetch trd]"
  by (simp add: auth0_token_def Let_def auth0_userinfo_tokens is_token_fetch_def
      split: sum.splits)

lemma auth0_token_events:
  assumes "TokenFetch tr \<in> set (snd (auth0_token co trd uep info))"
  shows "tr = trd"
proof -
  from assms have "TokenFetch tr \<in> set (filter is_token_fetch (snd (auth0_token co trd uep info)))"
    by (simp add: is_token_fetch_def)
  then show ?thesis by (simp add: auth0_token_tokens)
qed

lemma auth0_token_rejected:
  assumes "token_reply co trd = Inr resp" and "\<not> resp_ok resp"
  shows "auth0_token co trd uep info =
    (Inr (TextResponse (js ''Failed to fetch access token: '' @ show_nat (resp_status resp) @
            js '' '' @ resp_statusText resp) 500), [TokenFetch trd])"
  using assms by (simp add: auth0_token_def Let_def)

lemma auth0_callback_rejected:
  assumes "TokenFetch tr \<in> set (snd (auth0_callback e co r))"
    and "token_reply co tr = Inr resp" and "\<not> resp_ok resp"
  shows "auth0_callback e co r =
    (Inr (TextResponse (js ''Failed to fetch access token: '' @ show_nat (resp_status resp) @
            js '' '' @ resp_statusText resp) 500), [TokenFetch tr])"
proof -
  from assms(1) auth0_callback_cases [of e co r]
  obtain trd uep info where c: "auth0_callback e co r = auth0_token co trd uep info"
    by auto
  with assms(1) have "tr = trd" by (simp add: auth0_token_events)
  with c auth0_token_rejected [OF assms(2,3)] show ?thesis by simp
qed

lemma custom_finish_tokens:
  "filter is_token_fetch (snd (custom_finish co info tok ud evs)) = filter is_token_fetch evs"
  by (simp add: custom_finish_def Let_def is_token_fetch_def split: sum.splits)

lemma custom_userinfo_tokens:
  "filter is_token_fetch (snd (custom_userinfo co uep info tok evs))
     = filter is_token_fetch evs"
  by (simp add: custom_userinfo_def Let_def custom_finish_tokens is_token_fetch_def
      split: sum.splits)

lemma custom_token_tokens:
  "filter is_token_fetch (snd (custom_token co trd uep info)) = [TokenFetch trd]"
  by (simp add: custom_token_def Let_def custom_userinfo_tokens is_token_fetch_def
      split: sum.splits)

lemma custom_token_events:
  assumes "TokenFetch tr \<in> set (snd (custom_token co trd uep info))"
  shows "tr = trd"
proof -
  from assms have "TokenFetch tr \<in> set (filter is_token_fetch (snd (custom_token co trd uep info)))"
    by (simp add: is_token_fetch_def)
  then show ?thesis by (simp add: custom_token_tokens)
qed

lemma custom_token_rejected:
  assumes "token_reply co trd = Inr resp" and "\<not> resp_ok resp"
  shows "custom_token co trd uep info =
    (Inr (TextResponse (js ''Failed to fetch access token: '' @ show_nat (resp_status resp) @
            js '' '' @ resp_statusText resp) 500), [TokenFetch trd])"
  using assms by (simp add: custom_token_def Let_def)

lemma custom_callback_rejected:
  assumes "TokenFetch tr \<in> set (snd (custom_callback e co r))"
    and "token_reply co tr = Inr resp" and "\<not> resp_ok resp"
  shows "custom_callback e co r =
    (Inr (TextResponse (js ''Failed to fetch access token: '' @ show_nat (resp_status resp) @
            js '' '' @ resp_statusText resp) 500), [TokenFetch tr])"
proof -
  from assms(1) custom_callback_cases [of e co r]
  obtain trd uep info where c: "custom_callback e co r = custom_token co trd uep info"
    by auto
  with assms(1) have "tr = trd" by (simp add: custom_token_events)
  with c custom_token_rejected [OF assms(2,3)] show ?thesis by simp
qed

text \<open>
  C7. In a run of a callback handler in which a token request was sent and the token
  endpoint answered it with a status outside 200..299, the handler answers with a 500
  failure text, and that one token request is the whole list of events: the userinfo
  endpoint is not called, the token exchange is not repeated, and the authorization is
  not completed.
\<close>

theorem token_rejection_ends_the_attempt:
  assumes "token_reply co tr = Inr resp" and "\<not> resp_ok resp"
  shows
   "(TokenFetch tr \<in> set (snd (google_callback e co r)) \<longrightarrow>
       google_callback e co r =
         (Inr (TextResponse (js ''Failed to fetch access token: '' @
                 show_nat (resp_status resp)) 500), [TokenFetch tr])) \<and>
    (TokenFetch tr \<in> set (snd (keycloak_callback e co r)) \<longrightarrow>
       keycloak_callback e co r =
         (Inr (TextResponse (js ''Failed to fetch access token: '' @
                 show_nat (resp_status resp) @ js '' '' @ resp_statusText resp) 500),
          [TokenFetch tr])) \<and>
    (TokenFetch tr \<in> set (snd (auth0_callback e co r)) \<longrightarrow>
       auth0_callback e co r =
         (Inr (TextResponse (js ''Failed to fetch access token: '' @
                 show_nat (resp_status resp) @ js '' '' @ resp_statusText resp) 500),
          [TokenFetch tr])) \<and>
    (TokenFetch tr \<in> set (snd (custom_callback e co r)) \<longrightarrow>
       custom_callback e co r =
         (Inr (TextResponse (js ''Failed to fetch access token: '' @
                 show_nat (resp_status resp) @ js '' '' @ resp_statusText resp) 500),
          [TokenFetch tr]))"
  using google_callback_rejected [OF _ assms] keycloak_callback_rejected [OF _ assms]
    auth0_callback_rejected [OF _ assms] custom_callback_rejected [OF _ assms]
  by blast


theorem token_rejection_witness:
  "google_callback sample_env
     (upstream_with (reply 401 ''Unauthorized'' []) (reply 200 ''OK'' payload_email)) req_complete
   = (Inr (TextResponse (js ''Failed to fetch access token: 401'') 500),
      [TokenFetch google_sample_request])"
proof -
  let ?resp = "\<lparr> resp_status = 401, resp_statusText = js ''Unauthorized'', resp_body = [] \<rparr>"
  let ?co = "upstream_with (reply 401 ''Unauthorized'' []) (reply 200 ''OK'' payload_email)"
  have a: "token_reply ?co google_sample_request = Inr ?resp"
    by (simp add: upstream_with_def reply_def)
  have b: "\<not> resp_ok ?resp"
    by (simp add: resp_ok_def)
  have m: "TokenFetch google_sample_request \<in> set (snd (google_callback sample_env ?co req_complete))"
    by code_simp
  have s: "show_nat 401 = js ''401''"
    by code_simp
  from token_rejection_ends_the_attempt [OF a b, of sample_env req_complete] m s
  show ?thesis by (simp add: js_def)
qed

section \<open>Login derivation\<close>

lemma split_js_first: "index_js (split_js sep s) 0 = Some (takeWhile (\<lambda>c. c \<noteq> sep) s)"
  by (induction s) (auto split: list.splits)

lemma split_at_local_part: "split_at 64 0 (Some (JStr s)) = Inr (Some (JStr (local_part s)))"
  by (simp add: split_at_def split_js_first local_part_def)

lemma split_at_undefined: "split_at sep i None = Inl TypeError"
  by (simp add: split_at_def)

lemma split_at_not_string: "(\<forall>s. v \<noteq> Some (JStr s)) \<Longrightarrow> split_at sep i v = Inl TypeError"
  by (simp add: split_at_def split: option.splits json.splits)






lemma get_prop_error: "get_prop v k = Inl err \<Longrightarrow> err = TypeError"
  by (cases v) (simp_all add: get_prop_def)




text \<open>
  A Google callback that reaches the login derivation: the state and the code are
  accepted, the token endpoint answers with an access token and the userinfo endpoint
  with a payload.
\<close>

lemma google_callback_reaches_finish:
  assumes "decode_state (req_query r (js ''state'')) = Inr info"
    and "get_prop info (js ''clientId'') = Inr cid" and "truthy cid"
    and "req_query r (js ''code'') = Some code" and "code \<noteq> []"
    and "\<And>tr. token_reply co tr = Inr tresp" and "resp_ok tresp"
    and "resp_json tresp = Inr tokenData"
    and "get_prop tokenData (js ''access_token'') = Inr tok" and "truthy tok"
    and "\<And>ep. userinfo_reply co ep tok = Inr uresp" and "resp_ok uresp"
    and "resp_json uresp = Inr userData"
  shows "\<exists>tr ep. google_callback e co r =
     google_finish co info tok userData [TokenFetch tr, UserinfoFetch ep tok]"
  using assms
  by (simp add: google_callback_def google_exchange_def google_token_def google_userinfo_def
      Let_def) blast

text \<open>The Google login: the local part of a string \<open>email\<close>, a \<open>TypeError\<close> otherwise.\<close>

lemma google_login_string:
  "get_prop userData (js ''email'') = Inr (Some (JStr s))
   \<Longrightarrow> google_login userData = Inr (Some (JStr (local_part s)))"
  by (simp add: google_login_def try_js_def split_at_local_part)

lemma google_login_not_string:
  assumes "\<forall>s. get_prop userData (js ''email'') \<noteq> Inr (Some (JStr s))"
  shows "google_login userData = Inl TypeError"
proof (cases "get_prop userData (js ''email'')")
  case (Inl err)
  then show ?thesis
    using get_prop_error [OF Inl] by (simp add: google_login_def try_js_def)
next
  case (Inr v)
  with assms have "\<forall>s. v \<noteq> Some (JStr s)"
    by simp
  then show ?thesis
    using Inr by (simp add: google_login_def try_js_def split_at_not_string)
qed

text \<open>
  C10, as stated, fails in its last clause, that the handler is total only under the
  precondition of a non-empty \<open>email\<close> string. With the userinfo payload \<open>{"email": ""}\<close>
  the precondition does not hold, yet nothing is thrown: \<open>"".split('@')[0]\<close> is the
  empty string, and the handler completes the authorization with the login \<open>""\<close> and
  redirects.
\<close>

theorem google_login_empty_email_completes:
  "google_callback sample_env
     (upstream_with (reply 200 ''OK'' token_body) (reply 200 ''OK'' payload_email_empty)) req_complete
     = (Inr (RedirectResponse (js ''https://client.example/cb'') 302 []),
        [TokenFetch google_sample_request,
         UserinfoFetch (js ''https://www.googleapis.com/oauth2/v2/userinfo'') (Some (JStr (js ''tok''))),
         CompleteAuthorization
           \<lparr> props_accessToken = Some (JStr (js ''tok'')), props_login = Some (JStr []),
             comp_request = sample_info, comp_scope = None, comp_userId = Some (JStr []) \<rparr>])"
  by code_simp

text \<open>
  C10, amended. In a Google callback that reaches the login derivation, the handler
  throws a \<open>TypeError\<close> that nothing catches exactly when the \<open>email\<close> of the userinfo
  payload is not a string: the field is absent, \<open>null\<close> or of another type, or the
  payload is \<open>null\<close>. The handler then ends in that error after its two outbound calls,
  and the authorization is not completed. With an \<open>email\<close> that is a string, empty or
  not, the derivation succeeds: the login is the text before the first \<open>@\<close> (the empty
  string for an empty \<open>email\<close>), and the handler completes the authorization under that
  login and redirects.
\<close>

theorem google_login_partial:
  assumes "decode_state (req_query r (js ''state'')) = Inr info"
    and "get_prop info (js ''clientId'') = Inr cid" and "truthy cid"
    and "req_query r (js ''code'') = Some code" and "code \<noteq> []"
    and "\<And>tr. token_reply co tr = Inr tresp" and "resp_ok tresp"
    and "resp_json tresp = Inr tokenData"
    and "get_prop tokenData (js ''access_token'') = Inr tok" and "truthy tok"
    and "\<And>ep. userinfo_reply co ep tok = Inr uresp" and "resp_ok uresp"
    and "resp_json uresp = Inr userData"
  shows
    "((\<forall>s. get_prop userData (js ''email'') \<noteq> Inr (Some (JStr s))) \<longrightarrow>
        (\<exists>tr ep. google_callback e co r
            = (Inl TypeError, [TokenFetch tr, UserinfoFetch ep tok]))) \<and>
     (\<forall>s. get_prop userData (js ''email'') = Inr (Some (JStr s)) \<longrightarrow>
        (\<exists>tr ep c. google_callback e co r
            = (Inr (RedirectResponse (completeAuthorization co c) 302 []),
               [TokenFetch tr, UserinfoFetch ep tok, CompleteAuthorization c]) \<and>
           props_login c = Some (JStr (local_part s)) \<and> comp_userId c = props_login c))"
proof -
  from google_callback_reaches_finish [OF assms, of e]
  obtain tr ep where f: "google_callback e co r =
     google_finish co info tok userData [TokenFetch tr, UserinfoFetch ep tok]"
    by blast
  have a: "google_callback e co r = (Inl TypeError, [TokenFetch tr, UserinfoFetch ep tok])"
    if "\<forall>s. get_prop userData (js ''email'') \<noteq> Inr (Some (JStr s))"
    unfolding f by (simp add: google_finish_def google_login_not_string [OF that])
  have b: "\<exists>c. google_callback e co r
            = (Inr (RedirectResponse (completeAuthorization co c) 302 []),
               [TokenFetch tr, UserinfoFetch ep tok, CompleteAuthorization c]) \<and>
           props_login c = Some (JStr (local_part s)) \<and> comp_userId c = props_login c"
    if "get_prop userData (js ''email'') = Inr (Some (JStr s))" for s
    unfolding f by (simp add: google_finish_def google_login_string [OF that] Let_def)
  from a b show ?thesis
    by blast
qed

theorem google_login_partial_witness:
  "google_callback sample_env
     (upstream_with (reply 200 ''OK'' token_body) (reply 200 ''OK'' payload_sub_only)) req_complete
     = (Inl TypeError,
        [TokenFetch google_sample_request,
         UserinfoFetch (js ''https://www.googleapis.com/oauth2/v2/userinfo'') (Some (JStr (js ''tok'')))]) \<and>
   fst (google_callback sample_env
     (upstream_with (reply 200 ''OK'' token_body) (reply 200 ''OK'' payload_email)) req_complete)
     = Inr (RedirectResponse (js ''https://client.example/cb'') 302 [])"
proof -
  let ?tresp = "\<lparr> resp_status = 200, resp_statusText = js ''OK'', resp_body = token_body \<rparr>"
  let ?u1 = "\<lparr> resp_status = 200, resp_statusText = js ''OK'', resp_body = payload_sub_only \<rparr>"
  let ?u2 = "\<lparr> resp_status = 200, resp_statusText = js ''OK'', resp_body = payload_email \<rparr>"
  let ?co1 = "upstream_with (reply 200 ''OK'' token_body) (reply 200 ''OK'' payload_sub_only)"
  let ?co2 = "upstream_with (reply 200 ''OK'' token_body) (reply 200 ''OK'' payload_email)"
  let ?tok = "Some (JStr (js ''tok''))"
  have code: "req_query req_complete (js ''code'') = Some (js ''abc'')" "js ''abc'' \<noteq> []"
    by code_simp+
  have t1: "\<And>tr. token_reply ?co1 tr = Inr ?tresp" and t2: "\<And>tr. token_reply ?co2 tr = Inr ?tresp"
    and u1: "\<And>ep. userinfo_reply ?co1 ep ?tok = Inr ?u1"
    and u2: "\<And>ep. userinfo_reply ?co2 ep ?tok = Inr ?u2"
    by (simp_all add: upstream_with_def reply_def)
  have ok: "resp_ok ?tresp" "resp_ok ?u1" "resp_ok ?u2"
    by (simp_all add: resp_ok_def)
  have tj: "resp_json ?tresp = Inr (JObj [(js ''access_token'', JStr (js ''tok''))])"
    by code_simp
  have tk: "get_prop (JObj [(js ''access_token'', JStr (js ''tok''))]) (js ''access_token'') = Inr ?tok"
    "truthy ?tok"
    by code_simp+
  have j1: "resp_json ?u1 = Inr (JObj [(js ''sub'', JStr (js ''uuid-1''))])"
    and j2: "resp_json ?u2 = Inr (JObj [(js ''email'', JStr (js ''john.doe@gmail.com''))])"
    by code_simp+
  have e1: "get_prop (JObj [(js ''sub'', JStr (js ''uuid-1''))]) (js ''email'') = Inr None"
    and e2: "get_prop (JObj [(js ''email'', JStr (js ''john.doe@gmail.com''))]) (js ''email'')
       = Inr (Some (JStr (js ''john.doe@gmail.com'')))"
    by code_simp+
  have m: "snd (google_callback sample_env ?co1 req_complete)
     = [TokenFetch google_sample_request,
        UserinfoFetch (js ''https://www.googleapis.com/oauth2/v2/userinfo'') ?tok]"
    by code_simp
  have c: "completeAuthorization ?co2 c = js ''https://client.example/cb''" for c
    by (simp add: upstream_with_def)
  from google_login_partial [OF decode_state_samples(5) sample_info_clientId code t1 ok(1) tj tk
      u1 ok(2) j1, of sample_env] e1 m
  have a: "google_callback sample_env ?co1 req_complete
     = (Inl TypeError,
        [TokenFetch google_sample_request,
         UserinfoFetch (js ''https://www.googleapis.com/oauth2/v2/userinfo'') ?tok])"
    by auto
  from google_login_partial [OF decode_state_samples(5) sample_info_clientId code t2 ok(1) tj tk
      u2 ok(3) j2, of sample_env] e2 c
  have b: "fst (google_callback sample_env ?co2 req_complete)
     = Inr (RedirectResponse (js ''https://client.example/cb'') 302 [])"
    by auto
  from a b show ?thesis by simp
qed

section \<open>atob inverts btoa\<close>

lemma b64_encode_sextets:
  "b64_encode bs = map b64_char (sextets bs) @ replicate (pad_count bs) b64_pad"
  by (induction bs rule: b64_encode.induct) (simp_all add: numeral_2_eq_2)

lemma pad_count_le: "pad_count bs \<le> 2"
  by (induction bs rule: pad_count.induct) simp_all

lemma sextets_bound: "list_all (\<lambda>a. a < 256) bs \<Longrightarrow> list_all (\<lambda>n. n < 64) (sextets bs)"
proof (induction bs rule: sextets.induct)
  case (2 a)
  then have a: "a < 256" by simp
  show ?case using sextet_bounds(1,2) [OF a a a] by simp
next
  case (3 a b)
  then have a: "a < 256" and b: "b < 256" by simp_all
  show ?case using sextet_bounds(1,3,4) [OF a b b] by simp
next
  case (4 a b c rest)
  then have a: "a < 256" and b: "b < 256" and c: "c < 256" by simp_all
  show ?case using sextet_bounds(1,3,5,6) [OF a b c] 4 by simp
qed simp

lemma b64_index_char: "n < 64 \<Longrightarrow> b64_index (b64_char n) = Some n"
  by (auto simp add: b64_index_def unat_b64_char Let_def)

lemma b64_char_plain:
  assumes "n < 64"
  shows "b64_char n \<noteq> b64_pad" and "\<not> is_ascii_whitespace (b64_char n)"
  using assms
  by (auto simp add: b64_pad_def is_ascii_whitespace_def word_unat_eq_iff unat_b64_char)

lemma length_sextets_mod: "length (sextets bs) mod 4 \<noteq> 1"
  by (induction bs rule: sextets.induct) simp_all

lemma length_b64_encode: "length (b64_encode bs) mod 4 = 0"
  by (induction bs rule: b64_encode.induct) simp_all

lemma strip_padding_cases:
  "strip_padding [] = []"
  "strip_padding [b64_pad] = []"
  "c \<noteq> b64_pad \<Longrightarrow> strip_padding (xs @ [c]) = xs @ [c]"
  "c \<noteq> b64_pad \<Longrightarrow> strip_padding (xs @ [c, b64_pad]) = xs @ [c]"
  "strip_padding (xs @ [b64_pad, b64_pad]) = xs"
  by (simp_all add: strip_padding_def split: list.splits)

lemma strip_padding_chars:
  assumes "list_all (\<lambda>n. n < 64) sx" and "k \<le> 2"
  shows "strip_padding (map b64_char sx @ replicate k b64_pad) = map b64_char sx"
proof -
  from assms(2) consider "k = 0" | "k = 1" | "k = 2" by linarith
  then show ?thesis
  proof cases
    case 1
    show ?thesis
    proof (cases sx rule: rev_cases)
      case Nil
      with 1 show ?thesis by (simp add: strip_padding_cases)
    next
      case (snoc ys n)
      with assms(1) have "b64_char n \<noteq> b64_pad" by (simp add: b64_char_plain)
      with 1 snoc show ?thesis by (simp add: strip_padding_cases)
    qed
  next
    case 2
    show ?thesis
    proof (cases sx rule: rev_cases)
      case Nil
      with 2 show ?thesis by (simp add: strip_padding_cases)
    next
      case (snoc ys n)
      with assms(1) have "b64_char n \<noteq> b64_pad" by (simp add: b64_char_plain)
      from strip_padding_cases(4) [OF this, of "map b64_char ys"] 2 snoc
      show ?thesis by simp
    qed
  next
    case 3
    have "replicate k b64_pad = [b64_pad, b64_pad]"
      using 3 by (simp add: numeral_2_eq_2)
    then show ?thesis
      using strip_padding_cases(5) [of "map b64_char sx"] by simp
  qed
qed

lemma b64_decode_sextets:
  "list_all (\<lambda>a. a < 256) bs \<Longrightarrow> b64_decode (sextets bs) = bs"
proof (induction bs rule: sextets.induct)
  case 1
  show ?case by simp
next
  case (2 a)
  have "a div 4 * 4 + a mod 4 = a" by simp
  then show ?case by simp
next
  case (3 a b)
  have b: "b div 16 < 16" using 3 by (simp add: less_mult_imp_div_less)
  have "a div 4 * 4 + a mod 4 = a" "b div 16 * 16 + b mod 16 = b" by simp_all
  with b show ?case by simp
next
  case (4 a b c rest)
  have b: "b div 16 < 16" and c: "c div 64 < 4"
    using 4(2) by (simp_all add: less_mult_imp_div_less)
  have e: "a div 4 * 4 + a mod 4 = a" "b div 16 * 16 + b mod 16 = b"
    "c div 64 * 64 + c mod 64 = c" by simp_all
  from 4 have "b64_decode (sextets rest) = rest" by simp
  with b c e show ?case by simp
qed

lemma index_of_chars:
  assumes "list_all (\<lambda>n. n < 64) sx"
  shows "list_all (\<lambda>c. b64_index c \<noteq> None) (map b64_char sx)"
    and "map (\<lambda>c. the (b64_index c)) (map b64_char sx) = sx"
  using assms by (induction sx) (simp_all add: b64_index_char)

lemma no_whitespace_in_b64:
  assumes "list_all (\<lambda>n. n < 64) sx"
  shows "filter (\<lambda>c. \<not> is_ascii_whitespace c) (map b64_char sx @ replicate k b64_pad)
     = map b64_char sx @ replicate k b64_pad"
proof -
  have "\<not> is_ascii_whitespace b64_pad"
    by (simp add: is_ascii_whitespace_def b64_pad_def)
  with assms show ?thesis
    by (auto simp add: filter_id_conv list_all_iff b64_char_plain)
qed

lemma atob_b64_encode:
  assumes "list_all (\<lambda>a. a < 256) bs"
  shows "atob (b64_encode bs) = Inr (map of_nat bs)"
proof -
  let ?sx = "sextets bs"
  have sx: "list_all (\<lambda>n. n < 64) ?sx" using assms by (rule sextets_bound)
  have l: "length (b64_encode bs) mod 4 = 0" by (rule length_b64_encode)
  have f: "filter (\<lambda>c. \<not> is_ascii_whitespace c) (b64_encode bs) = b64_encode bs"
    unfolding b64_encode_sextets by (rule no_whitespace_in_b64 [OF sx])
  have s: "strip_padding (b64_encode bs) = map b64_char ?sx"
    unfolding b64_encode_sextets by (rule strip_padding_chars [OF sx pad_count_le])
  have m: "length (map b64_char ?sx) mod 4 \<noteq> 1"
    using length_sextets_mod [of bs] by simp
  show ?thesis
    unfolding atob_def f
    using l s m index_of_chars [OF sx] b64_decode_sextets [OF assms]
    by (simp add: Let_def)
qed

lemma atob_btoa:
  assumes "btoa s = Inr t"
  shows "atob t = Inr s"
proof -
  from assms have l: "list_all (\<lambda>c. unat c \<le> 255) s" and t: "t = b64_encode (map unat s)"
    by (auto simp add: btoa_def split: if_splits)
  from l have "list_all (\<lambda>a. a < 256) (map unat s)"
    by (simp add: list_all_iff less_Suc_eq_le [symmetric])
  from atob_b64_encode [OF this] t show ?thesis
    by (simp add: comp_def)
qed

section \<open>JSON.parse inverts JSON.stringify\<close>

subsection \<open>Strings\<close>

lemma hex_value_lower: "d < 16 \<Longrightarrow> hex_value (hex_lower d) = Some d"
  by (auto simp add: hex_value_def hex_lower_def Let_def unat_of_nat)

lemma hex4_digits:
  fixes n :: nat
  shows "((n div 4096 * 16 + (n div 256) mod 16) * 16 + (n div 16) mod 16) * 16 + n mod 16
    = n"
proof -
  have a: "n div 256 = (n div 16) div 16" and b: "n div 4096 = (n div 256) div 16"
    by (simp_all add: div_mult2_eq [symmetric])
  have "n div 4096 * 16 + (n div 256) mod 16 = n div 256"
    unfolding b by simp
  moreover have "n div 256 * 16 + (n div 16) mod 16 = n div 16"
    unfolding a by simp
  moreover have "n div 16 * 16 + n mod 16 = n" by simp
  ultimately show ?thesis by simp
qed

lemma parse_chars_hex4:
  assumes "a < 16" and "b < 16" and "c' < 16" and "d < 16"
  shows "parse_chars (92 # 117 # hex_lower a # hex_lower b # hex_lower c' # hex_lower d # t) =
     (case parse_chars t of
        None \<Rightarrow> None
      | Some (s, r) \<Rightarrow> Some (of_nat (((a * 16 + b) * 16 + c') * 16 + d) # s, r))"
  by (simp add: hex_value_lower [OF assms(1)] hex_value_lower [OF assms(2)]
      hex_value_lower [OF assms(3)] hex_value_lower [OF assms(4)] split: option.splits)

lemma parse_chars_unicode_escape:
  "parse_chars (unicode_escape c @ t) =
     (case parse_chars t of None \<Rightarrow> None | Some (s, r) \<Rightarrow> Some (c # s, r))"
proof -
  let ?n = "unat c"
  have d: "?n div 4096 < 16" "(?n div 256) mod 16 < 16" "(?n div 16) mod 16 < 16" "?n mod 16 < 16"
  proof -
    have "?n < 65536" using unsigned_less [of c, where 'a = nat] by simp
    then show "?n div 4096 < 16" by (simp add: less_mult_imp_div_less)
  qed simp_all
  have v: "(of_nat (((?n div 4096 * 16 + (?n div 256) mod 16) * 16 + (?n div 16) mod 16) * 16
             + ?n mod 16) :: 16 word) = c"
    unfolding hex4_digits by simp
  have u: "unicode_escape c @ t =
      92 # 117 # hex_lower (?n div 4096) # hex_lower ((?n div 256) mod 16) #
      hex_lower ((?n div 16) mod 16) # hex_lower (?n mod 16) # t"
    by (simp add: unicode_escape_def Let_def)
  show ?thesis
    unfolding u parse_chars_hex4 [OF d] v ..
qed

lemma parse_chars_plain:
  assumes "c \<noteq> 34" and "c \<noteq> 92" and "\<not> unat c < 32"
  shows "parse_chars (c # t) =
     (case parse_chars t of None \<Rightarrow> None | Some (s, r) \<Rightarrow> Some (c # s, r))"
  using assms by simp

lemma parse_chars_quote_char:
  "parse_chars (quote_char c @ t) =
     (case parse_chars t of None \<Rightarrow> None | Some (s, r) \<Rightarrow> Some (c # s, r))"
proof (cases "c = 8 \<or> c = 9 \<or> c = 10 \<or> c = 12 \<or> c = 13 \<or> c = 34 \<or> c = 92")
  case True
  then show ?thesis
    by (auto simp add: quote_char_def unescape_def split: option.splits)
next
  case False
  show ?thesis
  proof (cases "unat c < 32 \<or> is_high_surrogate c \<or> is_low_surrogate c")
    case True
    with False have "quote_char c = unicode_escape c"
      by (simp add: quote_char_def)
    then show ?thesis by (simp add: parse_chars_unicode_escape)
  next
    case plain: False
    with False have q: "quote_char c = [c]"
      by (simp add: quote_char_def)
    from False plain show ?thesis
      unfolding q by (simp add: parse_chars_plain)
  qed
qed

lemma surrogate_plain:
  assumes "is_high_surrogate c \<or> is_low_surrogate c"
  shows "c \<noteq> 34" and "c \<noteq> 92" and "\<not> unat c < 32"
  using assms by (auto simp add: is_high_surrogate_def is_low_surrogate_def word_le_nat_alt)

lemma parse_chars_quote_chars:
  "parse_chars (quote_chars s @ 34 # rest) = Some (s, rest)"
proof (induction s rule: quote_chars.induct)
  case 1
  show ?case by simp
next
  case (2 c)
  show ?case by (simp add: parse_chars_quote_char)
next
  case (3 c d r)
  show ?case
  proof (cases "is_high_surrogate c \<and> is_low_surrogate d")
    case True
    then have c: "c \<noteq> 34" "c \<noteq> 92" "\<not> unat c < 32" and d: "d \<noteq> 34" "d \<noteq> 92" "\<not> unat d < 32"
      using surrogate_plain [of c] surrogate_plain [of d] by simp_all
    from True 3(1) have ih: "parse_chars (quote_chars r @ 34 # rest) = Some (r, rest)" by simp
    from True have "quote_chars (c # d # r) @ 34 # rest = c # d # (quote_chars r @ 34 # rest)"
      by simp
    then show ?thesis
      by (simp only: parse_chars_plain [OF c] parse_chars_plain [OF d] ih option.case prod.case)
  next
    case False
    with 3(2) have ih: "parse_chars (quote_chars (d # r) @ 34 # rest) = Some (d # r, rest)" by simp
    from False have "quote_chars (c # d # r) @ 34 # rest
        = quote_char c @ (quote_chars (d # r) @ 34 # rest)"
      by auto
    then show ?thesis
      by (simp only: parse_chars_quote_char ih option.case prod.case)
  qed
qed

lemma QuoteJSONString_Cons: "QuoteJSONString s @ t = 34 # (quote_chars s @ 34 # t)"
  by (simp add: QuoteJSONString_def)

lemma parse_value_string:
  "parse_value (Suc n) (QuoteJSONString s @ rest) = Some (JStr s, rest)"
  by (simp add: QuoteJSONString_Cons parse_chars_quote_chars)

lemma skip_ws_plain: "\<not> is_json_ws c \<Longrightarrow> skip_ws (c # t) = c # t"
  by (simp add: skip_ws_def)

lemma skip_ws_punct:
  "skip_ws (34 # t) = 34 # t" "skip_ws (44 # t) = 44 # t" "skip_ws (58 # t) = 58 # t"
  "skip_ws (93 # t) = 93 # t" "skip_ws (125 # t) = 125 # t" "skip_ws (91 # t) = 91 # t"
  "skip_ws (123 # t) = 123 # t" "skip_ws [] = []"
  by (simp_all add: skip_ws_def is_json_ws_def)


subsection \<open>Arrays of strings\<close>

declare parse_value.simps [simp del] parse_elements.simps [simp del]
  parse_members.simps [simp del]

lemma join_js_Cons:
  "join_js sep (x # xs) = x @ (if xs = [] then [] else sep @ join_js sep xs)"
  by (cases xs) simp_all

lemma skip_ws_strings:
  "xs \<noteq> [] \<Longrightarrow> skip_ws (join_js [44] (map QuoteJSONString xs) @ t)
     = join_js [44] (map QuoteJSONString xs) @ t"
  by (cases xs) (simp_all add: join_js_Cons QuoteJSONString_Cons skip_ws_punct)

lemma parse_elements_strings:
  "xs \<noteq> [] \<Longrightarrow> length xs < n \<Longrightarrow>
     parse_elements n (join_js [44] (map QuoteJSONString xs) @ 93 # rest)
       = Some (map JStr xs, rest)"
proof (induction xs arbitrary: n)
  case Nil
  then show ?case by simp
next
  case (Cons x xs)
  from Cons.prems(2) obtain k where n: "n = Suc (Suc k)" and k: "length xs < Suc k"
    by (cases n; cases "n - 1") auto
  show ?case
  proof (cases "xs = []")
    case True
    then show ?thesis
      unfolding n
      by (subst parse_elements.simps)
         (simp add: parse_value_string skip_ws_punct
            )
  next
    case False
    have t: "join_js [44] (map QuoteJSONString (x # xs)) @ 93 # rest
        = QuoteJSONString x @ 44 # (join_js [44] (map QuoteJSONString xs) @ 93 # rest)"
      using False by (simp add: join_js_Cons)
    from Cons.IH [OF False k]
    have ih: "parse_elements (Suc k) (join_js [44] (map QuoteJSONString xs) @ 93 # rest)
        = Some (map JStr xs, rest)" .
    show ?thesis
      unfolding t n
      by (subst parse_elements.simps)
         (simp add: parse_value_string skip_ws_punct skip_ws_strings [OF False] ih
            )
  qed
qed

lemma parse_value_strings:
  assumes "length xs < n"
  shows "parse_value (Suc n) (91 # join_js [44] (map QuoteJSONString xs) @ 93 # rest)
     = Some (JArr (map JStr xs), rest)"
proof (cases "xs = []")
  case True
  then show ?thesis by (simp add: skip_ws_punct parse_value.simps)
next
  case False
  then obtain y ys where xs: "xs = y # ys" by (cases xs) auto
  have s: "join_js [44] (map QuoteJSONString xs) @ 93 # rest
      = 34 # (quote_chars y @ 34 #
          ((if ys = [] then [] else 44 # join_js [44] (map QuoteJSONString ys)) @ 93 # rest))"
    by (simp add: xs join_js_Cons QuoteJSONString_def)
  have "parse_value (Suc n) (91 # join_js [44] (map QuoteJSONString xs) @ 93 # rest)
      = (case parse_elements n (join_js [44] (map QuoteJSONString xs) @ 93 # rest) of
           None \<Rightarrow> None | Some (vs, r') \<Rightarrow> Some (JArr vs, r'))"
    unfolding s
    by (subst parse_value.simps)
       (simp add: skip_ws_punct)
  then show ?thesis
    by (simp add: parse_elements_strings [OF False assms])
qed

subsection \<open>Properties and objects\<close>

lemma parse_value_property:
  assumes "stringify_property p = Some t" and "prop_fuel p \<le> n"
  shows "\<exists>v. json_of_property p = Some v \<and> parse_value n (t @ rest) = Some (v, rest)"
proof (cases p)
  case (PStr s)
  with assms obtain k where "n = Suc k" by (cases n) auto
  with PStr assms show ?thesis by (auto simp add: parse_value_string)
next
  case (PStrs xs)
  with assms obtain k where "n = Suc k" and "length xs < k" by (cases n) auto
  with PStrs assms show ?thesis
    using parse_value_strings [of xs k rest] by auto
next
  case PUndefined
  with assms show ?thesis by simp
qed

lemma skip_ws_property:
  assumes "stringify_property p = Some t"
  shows "skip_ws (t @ rest) = t @ rest"
  using assms by (cases p) (auto simp add: QuoteJSONString_def skip_ws_punct)

lemma stringify_member_defined:
  "defined_member m \<Longrightarrow> \<exists>t. stringify_property (snd m) = Some t \<and>
     stringify_member m = Some (QuoteJSONString (fst m) @ 58 # t)"
  by (cases "snd m") (simp_all add: defined_member_def stringify_member_def)

lemma member_undefined:
  "\<not> defined_member m \<Longrightarrow> stringify_member m = None \<and> json_of_member m = None"
  by (simp add: defined_member_def stringify_member_def json_of_member_def)

lemma map_filter_members:
  "List.map_filter stringify_member obj
     = map (\<lambda>m. the (stringify_member m)) (filter defined_member obj)"
  "List.map_filter json_of_member obj
     = map (\<lambda>m. the (json_of_member m)) (filter defined_member obj)"
proof -
  have s: "stringify_member m \<noteq> None \<longleftrightarrow> defined_member m" for m
    by (cases "snd m") (simp_all add: defined_member_def stringify_member_def)
  have j: "json_of_member m \<noteq> None \<longleftrightarrow> defined_member m" for m
    by (cases "snd m") (simp_all add: defined_member_def json_of_member_def)
  show "List.map_filter stringify_member obj
     = map (\<lambda>m. the (stringify_member m)) (filter defined_member obj)"
    by (induction obj) (auto simp add: List.map_filter_simps s [symmetric] split: option.splits)
  show "List.map_filter json_of_member obj
     = map (\<lambda>m. the (json_of_member m)) (filter defined_member obj)"
    by (induction obj) (auto simp add: List.map_filter_simps j [symmetric] split: option.splits)
qed


lemma length_join_js: "sum_list (map length xs) \<le> length (join_js sep xs)"
  by (induction sep xs rule: join_js.induct) simp_all

lemma length_quoted_strings: "length xs \<le> length (join_js [44] (map QuoteJSONString xs))"
proof -
  have "length xs \<le> sum_list (map length (map QuoteJSONString xs))"
    by (induction xs) (simp_all add: QuoteJSONString_def)
  with length_join_js [of "map QuoteJSONString xs" "[44]"] show ?thesis by simp
qed

lemma length_member_text:
  assumes "defined_member m"
  shows "Suc (prop_fuel (snd m)) \<le> length (the (stringify_member m))"
proof (cases "snd m")
  case (PStr s)
  then show ?thesis by (simp add: stringify_member_def QuoteJSONString_def)
next
  case (PStrs xs)
  with length_quoted_strings [of xs] show ?thesis
    by (simp add: stringify_member_def QuoteJSONString_def)
next
  case PUndefined
  with assms show ?thesis by (simp add: defined_member_def)
qed

lemma length_members_text:
  assumes "list_all defined_member ms"
  shows "length ms + sum_list (map (\<lambda>m. prop_fuel (snd m)) ms)
     \<le> length (join_js [44] (map (\<lambda>m. the (stringify_member m)) ms))"
proof -
  from assms
  have "length ms + sum_list (map (\<lambda>m. prop_fuel (snd m)) ms)
      \<le> sum_list (map length (map (\<lambda>m. the (stringify_member m)) ms))"
  proof (induction ms)
    case Nil
    show ?case by simp
  next
    case (Cons m ms)
    with length_member_text [of m] show ?case by simp
  qed
  with length_join_js [of "map (\<lambda>m. the (stringify_member m)) ms" "[44]"]
  show ?thesis by simp
qed

lemma skip_ws_members:
  assumes "ms \<noteq> []" and "list_all defined_member ms"
  shows "skip_ws (join_js [44] (map (\<lambda>m. the (stringify_member m)) ms) @ t)
     = join_js [44] (map (\<lambda>m. the (stringify_member m)) ms) @ t"
proof -
  from assms obtain m ms' where ms: "ms = m # ms'" and d: "defined_member m"
    by (cases ms) auto
  from stringify_member_defined [OF d] show ?thesis
    by (auto simp add: ms join_js_Cons QuoteJSONString_def skip_ws_punct)
qed

lemma parse_members_defined:
  "ms \<noteq> [] \<Longrightarrow> list_all defined_member ms \<Longrightarrow>
   length ms + sum_list (map (\<lambda>m. prop_fuel (snd m)) ms) \<le> n \<Longrightarrow>
     parse_members n (join_js [44] (map (\<lambda>m. the (stringify_member m)) ms) @ 125 # rest)
       = Some (map (\<lambda>m. the (json_of_member m)) ms, rest)"
proof (induction ms arbitrary: n)
  case Nil
  then show ?case by simp
next
  case (Cons m ms)
  from Cons.prems(3) obtain k where n: "n = Suc k"
    and k: "length ms + sum_list (map (\<lambda>m. prop_fuel (snd m)) ms) \<le> k"
    and f: "prop_fuel (snd m) \<le> k"
    by (cases n) auto
  from Cons.prems(2) have d: "defined_member m" and ds: "list_all defined_member ms"
    by simp_all
  from stringify_member_defined [OF d] obtain t
    where t: "stringify_property (snd m) = Some t"
      and mt: "the (stringify_member m) = QuoteJSONString (fst m) @ 58 # t"
    by auto
  let ?tail = "(if ms = [] then [] else 44 # join_js [44] (map (\<lambda>m. the (stringify_member m)) ms))
      @ 125 # rest"
  from parse_value_property [OF t f, of ?tail] obtain v
    where v: "json_of_property (snd m) = Some v"
      and pv: "parse_value k (t @ ?tail) = Some (v, ?tail)"
    by auto
  have jm: "the (json_of_member m) = (fst m, v)"
    using v by (simp add: json_of_member_def)
  have tx: "join_js [44] (map (\<lambda>m. the (stringify_member m)) (m # ms)) @ 125 # rest
      = 34 # (quote_chars (fst m) @ 34 # 58 # (t @ ?tail))"
    by (simp add: join_js_Cons mt QuoteJSONString_def)
  show ?case
  proof (cases "ms = []")
    case True
    with pv have pv': "parse_value k (t @ 125 # rest) = Some (v, 125 # rest)" by simp
    show ?thesis
      unfolding tx n
      by (subst parse_members.simps)
         (simp add: True parse_chars_quote_chars skip_ws_punct skip_ws_property [OF t] pv' jm)
  next
    case False
    with pv have pv': "parse_value k (t @ 44 # join_js [44] (map (\<lambda>m. the (stringify_member m)) ms)
         @ 125 # rest)
        = Some (v, 44 # join_js [44] (map (\<lambda>m. the (stringify_member m)) ms) @ 125 # rest)"
      by simp
    from Cons.IH [OF False ds k]
    have ih: "parse_members k (join_js [44] (map (\<lambda>m. the (stringify_member m)) ms) @ 125 # rest)
        = Some (map (\<lambda>m. the (json_of_member m)) ms, rest)" .
    show ?thesis
      unfolding tx n
      by (subst parse_members.simps)
         (simp add: False parse_chars_quote_chars skip_ws_punct skip_ws_property [OF t] pv' jm
            skip_ws_members [OF False ds] ih)
  qed
qed

text \<open>
  Parsing the text that \<open>JSON.stringify\<close> writes for an object of strings, arrays of
  strings and undefined properties gives back exactly the defined properties, whatever
  code units the strings hold.
\<close>

lemma JSON_parse_stringify: "JSON_parse (JSON_stringify obj) = Some (json_of_object obj)"
proof -
  let ?ms = "filter defined_member obj"
  let ?body = "join_js [44] (map (\<lambda>m. the (stringify_member m)) ?ms)"
  have tx: "JSON_stringify obj = 123 # ?body @ [125]"
    by (simp add: JSON_stringify_def map_filter_members)
  have ds: "list_all defined_member ?ms" by (simp add: list_all_iff)
  show ?thesis
  proof (cases "?ms = []")
    case True
    then show ?thesis
      unfolding JSON_parse_def tx json_of_object_def map_filter_members
      by (simp add: skip_ws_punct parse_value.simps)
  next
    case False
    then obtain m ms' where ms: "?ms = m # ms'" by (cases ?ms) auto
    with ds have d: "defined_member m" by simp
    from stringify_member_defined [OF d] ms
    obtain r where b: "?body @ [125] = 34 # r"
      by (auto simp add: join_js_Cons QuoteJSONString_def)
    have "length ?ms + sum_list (map (\<lambda>m. prop_fuel (snd m)) ?ms) \<le> length ?body"
      by (rule length_members_text [OF ds])
    then have fuel: "length ?ms + sum_list (map (\<lambda>m. prop_fuel (snd m)) ?ms)
        \<le> length (123 # ?body @ [125])"
      by simp
    from b have "length (?body @ [125]) = length (34 # r)" by simp
    then have len: "length (123 # ?body @ [125]) = Suc (Suc (length r))" by simp
    from parse_members_defined [OF False ds fuel, of "[]"]
    have pm: "parse_members (Suc (Suc (length r))) (34 # r)
        = Some (map (\<lambda>m. the (json_of_member m)) ?ms, [])"
      unfolding b by simp
    show ?thesis
      unfolding JSON_parse_def tx json_of_object_def map_filter_members
      by (simp add: skip_ws_punct parse_value.simps b pm)
  qed
qed

section \<open>The state codec\<close>

text \<open>Whenever a state is produced, the callback's decoding reproduces the object.\<close>

lemma state_roundtrip:
  assumes "encode_state oauthReqInfo codeVerifier = Inr st"
  shows "decode_state (Some st) = Inr (json_of_object (state_object oauthReqInfo codeVerifier))"
  using atob_btoa [OF assms [unfolded encode_state_def]]
  by (simp add: decode_state_def str_of_opt_def try_js_def JSON_parse_stringify)

lemma state_object_fields:
  "get_prop (json_of_object (state_object q v)) (js ''codeVerifier'') = Inr (Some (JStr v))"
  "get_prop (json_of_object (state_object q v)) (js ''clientId'') = Inr (Some (JStr (clientId q)))"
  "get_prop (json_of_object (state_object q v)) (js ''responseType'')
     = Inr (Some (JStr (responseType q)))"
  "get_prop (json_of_object (state_object q v)) (js ''redirectUri'')
     = Inr (Some (JStr (redirectUri q)))"
  "get_prop (json_of_object (state_object q v)) (js ''scope'')
     = Inr (Some (JArr (map JStr (scope q))))"
  "get_prop (json_of_object (state_object q v)) (js ''state'') = Inr (Some (JStr (state q)))"
  "get_prop (json_of_object (state_object q v)) (js ''codeChallenge'')
     = Inr (map_option JStr (codeChallenge q))"
  "get_prop (json_of_object (state_object q v)) (js ''codeChallengeMethod'')
     = Inr (map_option JStr (codeChallengeMethod q))"
  by (cases "codeChallenge q"; cases "codeChallengeMethod q";
      simp add: get_prop_def json_of_object_def state_object_def List.map_filter_simps
        json_of_member_def optional_property_def js_def)+

section \<open>The authorize redirects\<close>

lemma generateCodeVerifier_value: "generateCodeVerifier array = Inr (verifier_of array)"
  by (simp add: generateCodeVerifier_def verifier_of_def btoa_bytes url_safe_b64_encode
      bytes_lt_256)

lemma generateCodeChallenge_value: "generateCodeChallenge v = Inr (deriveChallenge_spec v)"
  by (simp add: generateCodeChallenge_def deriveChallenge_spec_def btoa_bytes
      url_safe_b64_encode bytes_lt_256)

text \<open>A base64url text is plain ASCII, so \<open>encodeURIComponent\<close> accepts it.\<close>

lemma unat_b64url_char_less: "n < 64 \<Longrightarrow> unat (b64url_char n) < 128"
  by (auto simp add: unat_b64url_char)

lemma base64url_nopad_ascii:
  "list_all (\<lambda>a. a < 256) xs \<Longrightarrow> list_all (\<lambda>c. unat c < 128) (base64url_nopad xs)"
proof (induction xs rule: base64url_nopad.induct)
  case 1
  show ?case by simp
next
  case (2 a)
  then have a: "a < 256" by simp
  show ?case
    using sextet_bounds(1,2) [OF a a a] by (simp add: unat_b64url_char_less)
next
  case (3 a b)
  then have a: "a < 256" and b: "b < 256" by simp_all
  show ?case
    using sextet_bounds(1,3,4) [OF a b b] by (simp add: unat_b64url_char_less)
next
  case (4 a b c rest)
  then have a: "a < 256" and b: "b < 256" and c: "c < 256"
    and r: "list_all (\<lambda>c. unat c < 128) (base64url_nopad rest)" by simp_all
  show ?case
    using sextet_bounds(1,3,5,6) [OF a b c] r by (simp add: unat_b64url_char_less)
qed

lemma ascii_well_formed: "list_all (\<lambda>c. unat c < 128) s \<Longrightarrow> well_formed_utf16 s"
  by (induction s rule: well_formed_utf16.induct)
     (auto simp add: is_high_surrogate_def is_low_surrogate_def word_le_nat_alt)

lemma encodeURIComponent_challenge:
  "\<exists>enc. encodeURIComponent (deriveChallenge_spec v) = Inr enc"
  using ascii_well_formed [OF base64url_nopad_ascii [OF bytes_lt_256]]
  by (simp add: encodeURIComponent_def deriveChallenge_spec_def)

text \<open>Each redirect, once the PKCE pair is made: it fails where encoding the state
  fails (or a required setting is missing), and otherwise answers with the authorize
  URL that carries the state and the challenge.\<close>

lemma redirectToGoogle_eq:
  "redirectToGoogle r q e hs array =
     try_js (encode_state q (verifier_of array)) (\<lambda>st.
       Inr (AuthorizeRedirect
         (pkce_url
            \<lparr> p_upstream_url = js ''https://accounts.google.com/o/oauth2/v2/auth'',
              p_client_id = str_of_opt (GOOGLE_CLIENT_ID e),
              p_scope = js ''openid profile email https://www.googleapis.com/auth/gmail.send https://www.googleapis.com/auth/gmail.readonly'',
              p_redirect_uri = url_origin (url r) @ js ''/google/callback'',
              p_state = st \<rparr>
            (deriveChallenge_spec (verifier_of array))) hs))"
  by (simp add: redirectToGoogle_def generateCodeVerifier_value generateCodeChallenge_value
      try_js_def pkce_url_def)

lemma redirectToCustomOAuth_eq:
  "redirectToCustomOAuth r q e hs array =
     try_js (encode_state q (verifier_of array)) (\<lambda>st.
       Inr (AuthorizeRedirect
         (pkce_url
            \<lparr> p_upstream_url =
                or_str (CUSTOM_OAUTH_URL e) (js ''http://localhost:3000'') @
                js ''/oauth/authorize'',
              p_client_id = or_str (CUSTOM_OAUTH_CLIENT_ID e) (js ''demo-client''),
              p_scope = js ''read write'',
              p_redirect_uri = url_origin (url r) @ js ''/custom/callback'',
              p_state = st \<rparr>
            (deriveChallenge_spec (verifier_of array))) hs))"
  using encodeURIComponent_challenge [of "verifier_of array"]
  by (auto simp add: redirectToCustomOAuth_def generateCodeVerifier_value
      generateCodeChallenge_value try_js_def pkce_url_def split: sum.splits)

lemma pkce_url_params:
  "map_of (au_params (pkce_url p ch)) (js ''state'') = Some (p_state p)"
  "map_of (au_params (pkce_url p ch)) (js ''code_challenge'') = Some ch"
  "map_of (au_params (pkce_url p ch)) (js ''code_verifier'') = None"
  "map fst (au_params (pkce_url p ch)) =
     [js ''client_id'', js ''redirect_uri'', js ''scope'', js ''state'', js ''response_type'',
      js ''code_challenge'', js ''code_challenge_method'']"
  by (simp_all add: pkce_url_def append_param_def getUpstreamAuthorizeUrl_def js_def)

lemma audience_params:
  "map_of (au_params (append_param (pkce_url p ch) (js ''audience'') a)) (js ''state'')
     = Some (p_state p)"
  "map_of (au_params (append_param (pkce_url p ch) (js ''audience'') a)) (js ''code_challenge'')
     = Some ch"
  "map_of (au_params (append_param (pkce_url p ch) (js ''audience'') a)) (js ''code_verifier'')
     = None"
  by (simp_all add: pkce_url_def append_param_def getUpstreamAuthorizeUrl_def js_def)

lemma redirectToGoogle_shape:
  "redirectToGoogle r q e hs array = Inr resp \<Longrightarrow> pkce_redirect q (verifier_of array) resp"
  unfolding redirectToGoogle_eq pkce_redirect_def
  by (auto simp add: try_js_def split: sum.splits) (metis UpstreamAuthorizeParams.select_convs(5))

lemma redirectToCustomOAuth_shape:
  "redirectToCustomOAuth r q e hs array = Inr resp \<Longrightarrow> pkce_redirect q (verifier_of array) resp"
  unfolding redirectToCustomOAuth_eq pkce_redirect_def
  by (auto simp add: try_js_def split: sum.splits) (metis UpstreamAuthorizeParams.select_convs(5))

lemma redirectToKeycloak_shape:
  assumes "redirectToKeycloak r q e hs array = Inr resp"
  shows "pkce_redirect q (verifier_of array) resp"
proof -
  from assms obtain st realm where st: "encode_state q (verifier_of array) = Inr st"
    and resp: "resp = AuthorizeRedirect
      (pkce_url
         \<lparr> p_upstream_url =
             str_of_opt (KEYCLOAK_DOMAIN e) @ js ''/realms/'' @ realm @
             js ''/protocol/openid-connect/auth'',
           p_client_id = str_of_opt (KEYCLOAK_CLIENT_ID e),
           p_scope = js ''openid profile email'',
           p_redirect_uri = url_origin (url r) @ js ''/keycloak/callback'',
           p_state = st \<rparr>
         (deriveChallenge_spec (verifier_of array))) hs"
    by (auto simp add: redirectToKeycloak_def generateCodeVerifier_value
        generateCodeChallenge_value try_js_def pkce_url_def split: sum.splits if_splits)
  show ?thesis
    unfolding pkce_redirect_def resp
    using st by (metis UpstreamAuthorizeParams.select_convs(5))
qed

lemma redirectToAuth0_shape:
  assumes "redirectToAuth0 r q e hs array = Inr resp"
  shows "pkce_redirect q (verifier_of array) resp"
proof -
  let ?p = "\<lparr> p_upstream_url = js ''https://'' @ str_of_opt (AUTH0_DOMAIN e) @ js ''/authorize'',
      p_client_id = str_of_opt (AUTH0_CLIENT_ID e),
      p_scope = js ''openid profile email'',
      p_redirect_uri = url_origin (url r) @ js ''/auth0/callback'',
      p_state = projr (encode_state q (verifier_of array)) \<rparr>"
  from assms obtain st where st: "encode_state q (verifier_of array) = Inr st"
    and resp: "resp = AuthorizeRedirect (pkce_url ?p (deriveChallenge_spec (verifier_of array))) hs
      \<or> resp = AuthorizeRedirect
            (append_param (pkce_url ?p (deriveChallenge_spec (verifier_of array)))
               (js ''audience'') (str_of_opt (AUTH0_AUDIENCE e))) hs"
    by (auto simp add: redirectToAuth0_def generateCodeVerifier_value
        generateCodeChallenge_value try_js_def pkce_url_def Let_def
        split: sum.splits if_splits)
  have "p_state ?p = st" using st by simp
  with st resp show ?thesis
    unfolding pkce_redirect_def by blast
qed

text \<open>
  In such a redirect the challenge is the \<open>code_challenge\<close> parameter, no parameter is
  named \<open>code_verifier\<close>, and the state parameter decodes to the verifier.
\<close>

lemma pkce_redirect_reveals:
  assumes "pkce_redirect q v resp"
  shows "redirect_param resp (js ''code_challenge'') = Some (deriveChallenge_spec v)"
    and "redirect_param resp (js ''code_verifier'') = None"
    and "verifier_in_state resp = Inr (Some (JStr v))"
proof -
  from assms obtain st p hs where st: "encode_state q v = Inr st" and p: "p_state p = st"
    and resp: "resp = AuthorizeRedirect (pkce_url p (deriveChallenge_spec v)) hs \<or>
      (\<exists>a. resp = AuthorizeRedirect
         (append_param (pkce_url p (deriveChallenge_spec v)) (js ''audience'') a) hs)"
    unfolding pkce_redirect_def by blast
  have d: "try_js (decode_state (Some st)) (\<lambda>info. get_prop info (js ''codeVerifier''))
      = Inr (Some (JStr v))"
    by (simp add: state_roundtrip [OF st] try_js_def state_object_fields)
  from resp show "redirect_param resp (js ''code_challenge'') = Some (deriveChallenge_spec v)"
    by (auto simp add: redirect_param_def pkce_url_params audience_params)
  from resp show "redirect_param resp (js ''code_verifier'') = None"
    by (auto simp add: redirect_param_def pkce_url_params audience_params)
  from resp show "verifier_in_state resp = Inr (Some (JStr v))"
    by (auto simp add: verifier_in_state_def pkce_url_params audience_params p d)
qed

lemma sample_facts:
  "generateCodeVerifier sample_random = Inr sample_verifier"
  "verifier_of sample_random = sample_verifier"
  "encode_state sample_request sample_verifier = Inr sample_encoded"
  "encode_state unicode_request sample_verifier = Inl InvalidCharacterError"
  by code_simp+

text \<open>
  C2, as stated, fails: in the redirects the Google and the custom OAuth handler issue
  for \<open>sample_request\<close>, the state parameter of the upstream authorize URL decodes,
  the way the callback decodes it, to the very verifier that was generated.
\<close>

theorem state_parameter_carries_verifier:
  "generateCodeVerifier sample_random = Inr sample_verifier \<and>
   try_js (redirectToGoogle req_complete sample_request sample_env [] sample_random)
     verifier_in_state = Inr (Some (JStr sample_verifier)) \<and>
   try_js (redirectToCustomOAuth req_complete sample_request sample_env [] sample_random)
     verifier_in_state = Inr (Some (JStr sample_verifier))"
proof -
  obtain g where g: "redirectToGoogle req_complete sample_request sample_env [] sample_random = Inr g"
    by (simp add: redirectToGoogle_eq sample_facts try_js_def)
  obtain c where c: "redirectToCustomOAuth req_complete sample_request sample_env [] sample_random
      = Inr c"
    by (simp add: redirectToCustomOAuth_eq sample_facts try_js_def)
  from pkce_redirect_reveals(3) [OF redirectToGoogle_shape [OF g]]
    pkce_redirect_reveals(3) [OF redirectToCustomOAuth_shape [OF c]]
  show ?thesis
    by (simp add: g c try_js_def sample_facts)
qed

text \<open>
  C2, amended. Whenever one of the four handlers issues its authorize redirect, the
  upstream authorize URL carries the SHA-256 challenge of the verifier as
  \<open>code_challenge\<close> and has no \<open>code_verifier\<close> parameter; its \<open>state\<close> parameter,
  however, is base64 of a JSON object whose \<open>codeVerifier\<close> is the verifier, so the
  verifier does reach the upstream, inside the state.
\<close>

theorem authorize_redirect_parameters:
  assumes "generateCodeVerifier array = Inr v"
    and "redirectToGoogle r q e hs array = Inr resp \<or>
         redirectToCustomOAuth r q e hs array = Inr resp \<or>
         redirectToKeycloak r q e hs array = Inr resp \<or>
         redirectToAuth0 r q e hs array = Inr resp"
  shows "redirect_param resp (js ''code_challenge'') = Some (deriveChallenge_spec v) \<and>
         redirect_param resp (js ''code_verifier'') = None \<and>
         verifier_in_state resp = Inr (Some (JStr v))"
proof -
  from assms(1) have v: "v = verifier_of array"
    by (simp add: generateCodeVerifier_value)
  from assms(2) have "pkce_redirect q v resp"
    unfolding v
    by (elim disjE)
       (erule redirectToGoogle_shape redirectToCustomOAuth_shape redirectToKeycloak_shape
          redirectToAuth0_shape)+
  then show ?thesis
    using pkce_redirect_reveals by blast
qed

theorem authorize_redirect_parameters_witness:
  "redirectToGoogle req_complete sample_request sample_env [] sample_random
     = Inr (AuthorizeRedirect
         (pkce_url
            \<lparr> p_upstream_url = js ''https://accounts.google.com/o/oauth2/v2/auth'',
              p_client_id = js ''gid'',
              p_scope = js ''openid profile email https://www.googleapis.com/auth/gmail.send https://www.googleapis.com/auth/gmail.readonly'',
              p_redirect_uri = js ''https://gw.example/google/callback'',
              p_state = sample_encoded \<rparr>
            (deriveChallenge_spec sample_verifier)) []) \<and>
   verifier_in_state (AuthorizeRedirect
         (pkce_url
            \<lparr> p_upstream_url = js ''https://accounts.google.com/o/oauth2/v2/auth'',
              p_client_id = js ''gid'',
              p_scope = js ''openid profile email https://www.googleapis.com/auth/gmail.send https://www.googleapis.com/auth/gmail.readonly'',
              p_redirect_uri = js ''https://gw.example/google/callback'',
              p_state = sample_encoded \<rparr>
            (deriveChallenge_spec sample_verifier)) [])
     = Inr (Some (JStr sample_verifier))"
proof -
  have o: "url_origin (url req_complete) = js ''https://gw.example''"
    and i: "str_of_opt (GOOGLE_CLIENT_ID sample_env) = js ''gid''"
    by code_simp+
  have g: "redirectToGoogle req_complete sample_request sample_env [] sample_random
     = Inr (AuthorizeRedirect
         (pkce_url
            \<lparr> p_upstream_url = js ''https://accounts.google.com/o/oauth2/v2/auth'',
              p_client_id = js ''gid'',
              p_scope = js ''openid profile email https://www.googleapis.com/auth/gmail.send https://www.googleapis.com/auth/gmail.readonly'',
              p_redirect_uri = js ''https://gw.example/google/callback'',
              p_state = sample_encoded \<rparr>
            (deriveChallenge_spec sample_verifier)) [])"
    by (simp add: redirectToGoogle_eq sample_facts try_js_def o i) (simp add: js_def)
  from authorize_redirect_parameters [OF sample_facts(1) disjI1, OF g] g
  show ?thesis by simp
qed

text \<open>
  C3. The claim: for every authorization request and verifier, decoding the state that
  encoding them produces gives the request and the verifier back.
  A request whose client state is a check mark (U+2713) has no state at all: its JSON
  text holds a code unit above U+00FF, \<open>btoa\<close> throws, and the redirect ends in that
  error. Whenever a state is produced, decoding it does give every field back
  (\<open>state_roundtrip\<close>, \<open>state_object_fields\<close>).
\<close>

theorem state_encoding_throws_on_unicode:
  "encode_state unicode_request sample_verifier = Inl InvalidCharacterError \<and>
   redirectToGoogle req_complete unicode_request sample_env [] sample_random
     = Inl InvalidCharacterError"
  by (simp add: redirectToGoogle_eq sample_facts try_js_def)

end
